theory Spec2Isabelle
  imports Main "HOL-Library.Multiset"
begin

section \<open>Data model of the canvas editor (src/index.ts)\<close>

text \<open>
  The editor keeps its whole state in the fields of one class, \<^verbatim>\<open>CanvasApp\<close>.
  The embedding keeps that shape: one record for the application state, one record per
  entity interface, and every method as a function from state to state.

  JavaScript numbers are modelled as \<^typ>\<open>int\<close>: every coordinate, id, counter and z-index
  of the program is an integer cell index or an integer counter, and no operation modelled
  here divides. A JavaScript array is a list whose last element is the element pushed last.
  A JavaScript \<^verbatim>\<open>Set<number>\<close> is a duplicate-free list in insertion order, which is the
  order in which \<^verbatim>\<open>for ... of\<close> and \<^verbatim>\<open>values().next()\<close> visit it.

  Field names carry a prefix naming their interface (\<open>tb_\<close> for \<^verbatim>\<open>TextBox\<close>, \<open>rc_\<close> for
  \<^verbatim>\<open>Rectangle\<close>, \<open>ln_\<close> for \<^verbatim>\<open>Line\<close>, \<open>tc_\<close> for \<^verbatim>\<open>TextChar\<close>), because the
  interfaces share the names \<^verbatim>\<open>id\<close>, \<^verbatim>\<open>x1\<close>, \<^verbatim>\<open>zIndex\<close> and so on.
\<close>

subsection \<open>Colours\<close>

text \<open>
  Modelled from the spec: the class \<^verbatim>\<open>RGBA\<close> is imported from the rendering library
  \<^verbatim>\<open>@opentui/core\<close> and is not part of the sources. The specification describes a colour
  as ``a fully specified RGBA 4-tuple'' and its persisted form as \<^verbatim>\<open>{r,g,b,a}\<close> ``with channel
  values in [0,255]''. Accordingly a channel is an integer in [0,255], a colour is a record
  of four channels, the accessors \<^verbatim>\<open>.r .g .b .a\<close> read the channels as numbers
  (\<open>channelValue\<close> of the field), and both factory functions build the tuple from four
  numbers. The specification says nothing about a number outside the range; \<open>toChannel\<close>
  brings it to the nearest bound and leaves every number inside the range as it is.
\<close>

typedef channel = "{0..255::int}"
  by (rule exI [of _ 0]) simp

text \<open>Modelled from the spec: the number that an accessor of \<^verbatim>\<open>RGBA\<close> returns for a
  channel.\<close>

definition channelValue :: "channel \<Rightarrow> int" where
  "channelValue c = Rep_channel c"

text \<open>Modelled from the spec: the channel that a factory of \<^verbatim>\<open>RGBA\<close> makes of a number.\<close>

definition toChannel :: "int \<Rightarrow> channel" where
  "toChannel v = Abs_channel (max 0 (min 255 v))"

text \<open>Modelled from the spec: the class \<^verbatim>\<open>RGBA\<close> itself, ``a fully specified RGBA
  4-tuple''.\<close>

record RGBA =
  rgba_r :: channel
  rgba_g :: channel
  rgba_b :: channel
  rgba_a :: channel

text \<open>Modelled from the spec: the factories \<^verbatim>\<open>RGBA.fromInts\<close> and \<^verbatim>\<open>RGBA.fromValues\<close>,
  which the source calls with four numbers.\<close>

definition fromInts :: "int \<Rightarrow> int \<Rightarrow> int \<Rightarrow> int \<Rightarrow> RGBA" where
  "fromInts r g b a =
    \<lparr>rgba_r = toChannel r, rgba_g = toChannel g, rgba_b = toChannel b, rgba_a = toChannel a\<rparr>"

definition fromValues :: "int \<Rightarrow> int \<Rightarrow> int \<Rightarrow> int \<Rightarrow> RGBA" where
  "fromValues r g b a =
    \<lparr>rgba_r = toChannel r, rgba_g = toChannel g, rgba_b = toChannel b, rgba_a = toChannel a\<rparr>"

text \<open>\<^verbatim>\<open>type EntityColor = RGBA | null\<close>: \<open>None\<close> is the transparent colour.\<close>

type_synonym EntityColor = "RGBA option"

definition STROKE_PALETTE :: "EntityColor list" where
  "STROKE_PALETTE =
    [None,
     Some (fromInts 0 0 0 255),
     Some (fromInts 255 255 255 255),
     Some (fromInts 255 100 100 255),
     Some (fromInts 100 255 100 255),
     Some (fromInts 100 100 255 255),
     Some (fromInts 255 255 100 255)]"

definition FILL_PALETTE :: "EntityColor list" where
  "FILL_PALETTE =
    [None,
     Some (fromInts 0 0 0 255),
     Some (fromInts 60 60 60 255),
     Some (fromInts 80 30 30 255),
     Some (fromInts 30 80 30 255),
     Some (fromInts 30 30 80 255),
     Some (fromInts 80 80 30 255)]"

subsection \<open>Entities\<close>

record TextChar =
  tc_char :: string
  tc_bold :: bool
  tc_color :: EntityColor

record TextBox =
  tb_id :: int
  tb_x :: int
  tb_y :: int
  tb_chars :: "TextChar list"
  tb_zIndex :: int
  tb_strokeColor :: EntityColor
  tb_fillColor :: EntityColor

record Rectangle =
  rc_id :: int
  rc_x1 :: int
  rc_y1 :: int
  rc_x2 :: int
  rc_y2 :: int
  rc_bold :: bool
  rc_zIndex :: int
  rc_strokeColor :: EntityColor
  rc_fillColor :: EntityColor

record Line =
  ln_id :: int
  ln_x1 :: int
  ln_y1 :: int
  ln_x2 :: int
  ln_y2 :: int
  ln_bold :: bool
  ln_zIndex :: int
  ln_strokeColor :: EntityColor
  ln_fillColor :: EntityColor

datatype Tool = ToolMove | ToolText | ToolRectangle | ToolLine

text \<open>\<^verbatim>\<open>type ResizeHandle = "nw" | ... | null\<close>: the \<^verbatim>\<open>null\<close> is \<open>None\<close> of the option type.\<close>

datatype ResizeHandle = NW | N | NE | E | SE | S | SW | W

record HistorySnapshot =
  hs_textBoxes :: "TextBox list"
  hs_rectangles :: "Rectangle list"
  hs_lines :: "Line list"
  hs_nextTextBoxId :: int
  hs_nextRectId :: int
  hs_nextLineId :: int
  hs_nextZIndex :: int

subsection \<open>The application state\<close>

text \<open>
  The fields of \<^verbatim>\<open>CanvasApp\<close> that the modelled methods read or write. The renderer, the
  canvas widget, the cursor-blink timer, the save prompt and the colour constants used only
  for painting are left out: no modelled method depends on them, and
  \<^verbatim>\<open>renderer.requestRender()\<close> has no effect on the fields below.
\<close>

record CanvasApp =
  boldMode :: bool
  currentFilePath :: "string option"
  isSelecting :: bool
  isSelectionPending :: bool
  gridWidth :: int
  gridHeight :: int
  textBoxes :: "TextBox list"
  nextTextBoxId :: int
  rectangles :: "Rectangle list"
  nextRectId :: int
  lines :: "Line list"
  nextLineId :: int
  nextZIndex :: int
  currentTool :: Tool
  isDrawingRect :: bool
  isDrawingLine :: bool
  drawStartX :: int
  drawStartY :: int
  drawCursorX :: int
  drawCursorY :: int
  isDraggingMouse :: bool
  activeTextBoxId :: "int option"
  textCursorPos :: int
  hoveredTextBoxId :: "int option"
  hoveredRectId :: "int option"
  hoveredLineId :: "int option"
  selectedTextBoxIds :: "int list"
  selectedRectIds :: "int list"
  selectedLineIds :: "int list"
  isDraggingSelection :: bool
  dragStartX :: int
  dragStartY :: int
  isResizingRect :: bool
  resizeHandle :: "ResizeHandle option"
  mouseDownX :: int
  mouseDownY :: int
  hasDragged :: bool
  historyStack :: "HistorySnapshot list"
  redoStack :: "HistorySnapshot list"
  currentStrokeColor :: EntityColor
  currentFillColor :: EntityColor

definition MAX_HISTORY :: nat where
  "MAX_HISTORY = 100"

text \<open>The field initialisers of the class, with the grid size the constructor reads.\<close>

definition initialApp :: "int \<Rightarrow> int \<Rightarrow> CanvasApp" where
  "initialApp w h =
    \<lparr>boldMode = False, currentFilePath = None, isSelecting = False,
     isSelectionPending = False, gridWidth = w, gridHeight = h,
     textBoxes = [], nextTextBoxId = 1, rectangles = [], nextRectId = 1,
     lines = [], nextLineId = 1, nextZIndex = 1, currentTool = ToolMove,
     isDrawingRect = False, isDrawingLine = False, drawStartX = 0, drawStartY = 0,
     drawCursorX = 0, drawCursorY = 0, isDraggingMouse = False,
     activeTextBoxId = None, textCursorPos = 0, hoveredTextBoxId = None,
     hoveredRectId = None, hoveredLineId = None, selectedTextBoxIds = [],
     selectedRectIds = [], selectedLineIds = [], isDraggingSelection = False,
     dragStartX = 0, dragStartY = 0, isResizingRect = False, resizeHandle = None,
     mouseDownX = 0, mouseDownY = 0, hasDragged = False, historyStack = [],
     redoStack = [], currentStrokeColor = Some (fromInts 255 255 255 255),
     currentFillColor = None\<rparr>"

section \<open>History: snapshots, undo, redo\<close>

definition cloneTextBoxes :: "TextBox list \<Rightarrow> TextBox list" where
  "cloneTextBoxes boxes = map (\<lambda>b. b\<lparr>tb_chars := map (\<lambda>c. c) (tb_chars b)\<rparr>) boxes"

definition cloneRectangles :: "Rectangle list \<Rightarrow> Rectangle list" where
  "cloneRectangles rects = map (\<lambda>r. r) rects"

definition cloneLines :: "Line list \<Rightarrow> Line list" where
  "cloneLines ls = map (\<lambda>l. l) ls"

text \<open>The object literal that \<^verbatim>\<open>saveSnapshot\<close>, \<^verbatim>\<open>undo\<close> and \<^verbatim>\<open>redo\<close> each build.\<close>

definition currentSnapshot :: "CanvasApp \<Rightarrow> HistorySnapshot" where
  "currentSnapshot s =
    \<lparr>hs_textBoxes = cloneTextBoxes (textBoxes s),
     hs_rectangles = cloneRectangles (rectangles s),
     hs_lines = cloneLines (lines s),
     hs_nextTextBoxId = nextTextBoxId s,
     hs_nextRectId = nextRectId s,
     hs_nextLineId = nextLineId s,
     hs_nextZIndex = nextZIndex s\<rparr>"

definition saveSnapshot :: "CanvasApp \<Rightarrow> CanvasApp" where
  "saveSnapshot s =
    (let pushed = historyStack s @ [currentSnapshot s];
         kept = (if length pushed > MAX_HISTORY then tl pushed else pushed)
     in s\<lparr>historyStack := kept, redoStack := []\<rparr>)"

definition clearSelection :: "CanvasApp \<Rightarrow> CanvasApp" where
  "clearSelection s = s\<lparr>selectedTextBoxIds := [], selectedRectIds := [], selectedLineIds := []\<rparr>"

text \<open>Installing a popped snapshot and resetting the transient state, as both
  \<^verbatim>\<open>undo\<close> and \<^verbatim>\<open>redo\<close> do after their pop.\<close>

definition installSnapshot :: "HistorySnapshot \<Rightarrow> CanvasApp \<Rightarrow> CanvasApp" where
  "installSnapshot snapshot s =
    clearSelection
      (s\<lparr>textBoxes := hs_textBoxes snapshot,
         rectangles := hs_rectangles snapshot,
         lines := hs_lines snapshot,
         nextTextBoxId := hs_nextTextBoxId snapshot,
         nextRectId := hs_nextRectId snapshot,
         nextLineId := hs_nextLineId snapshot,
         nextZIndex := hs_nextZIndex snapshot,
         activeTextBoxId := None,
         hoveredTextBoxId := None,
         hoveredRectId := None,
         hoveredLineId := None\<rparr>)"

definition undo :: "CanvasApp \<Rightarrow> CanvasApp" where
  "undo s =
    (if length (historyStack s) = 0 then s
     else
       let s1 = s\<lparr>redoStack := redoStack s @ [currentSnapshot s]\<rparr>;
           snapshot = last (historyStack s1);
           s2 = s1\<lparr>historyStack := butlast (historyStack s1)\<rparr>
       in installSnapshot snapshot s2)"

definition redo :: "CanvasApp \<Rightarrow> CanvasApp" where
  "redo s =
    (if length (redoStack s) = 0 then s
     else
       let s1 = s\<lparr>historyStack := historyStack s @ [currentSnapshot s]\<rparr>;
           snapshot = last (redoStack s1);
           s2 = s1\<lparr>redoStack := butlast (redoStack s1)\<rparr>
       in installSnapshot snapshot s2)"

text \<open>The document: the three entity collections and the four counters.\<close>

definition document :: "CanvasApp \<Rightarrow> HistorySnapshot" where
  "document s =
    \<lparr>hs_textBoxes = textBoxes s, hs_rectangles = rectangles s, hs_lines = lines s,
     hs_nextTextBoxId = nextTextBoxId s, hs_nextRectId = nextRectId s,
     hs_nextLineId = nextLineId s, hs_nextZIndex = nextZIndex s\<rparr>"

section \<open>File save and load\<close>

record SerializedColor =
  sc_r :: int
  sc_g :: int
  sc_b :: int
  sc_a :: int

record SerializedTextChar =
  stc_char :: string
  stc_bold :: bool
  stc_color :: "SerializedColor option"

record SerializedTextBox =
  stb_id :: int
  stb_x :: int
  stb_y :: int
  stb_chars :: "SerializedTextChar list"
  stb_zIndex :: int
  stb_strokeColor :: "SerializedColor option"
  stb_fillColor :: "SerializedColor option"

record SerializedRectangle =
  src_id :: int
  src_x1 :: int
  src_y1 :: int
  src_x2 :: int
  src_y2 :: int
  src_bold :: bool
  src_zIndex :: int
  src_strokeColor :: "SerializedColor option"
  src_fillColor :: "SerializedColor option"

record SerializedLine =
  sln_id :: int
  sln_x1 :: int
  sln_y1 :: int
  sln_x2 :: int
  sln_y2 :: int
  sln_bold :: bool
  sln_zIndex :: int
  sln_strokeColor :: "SerializedColor option"
  sln_fillColor :: "SerializedColor option"

text \<open>
  The interface \<^verbatim>\<open>TigmaFile\<close> types the version as the literal \<^verbatim>\<open>1\<close>, but an object that
  comes out of \<^verbatim>\<open>JSON.parse\<close> carries whatever the file holds, and \<^verbatim>\<open>loadFile\<close> tests
  it. So the field is an integer; any value other than the number 1 stands for every
  version that \<^verbatim>\<open>data.version !== 1\<close> refuses.
\<close>

record TigmaFile =
  tf_version :: int
  tf_textBoxes :: "SerializedTextBox list"
  tf_rectangles :: "SerializedRectangle list"
  tf_lines :: "SerializedLine list"
  tf_nextTextBoxId :: int
  tf_nextRectId :: int
  tf_nextLineId :: int
  tf_nextZIndex :: int

definition serializeColor :: "EntityColor \<Rightarrow> SerializedColor option" where
  "serializeColor color =
    (case color of
       None \<Rightarrow> None
     | Some c \<Rightarrow> Some \<lparr>sc_r = channelValue (rgba_r c), sc_g = channelValue (rgba_g c),
                      sc_b = channelValue (rgba_b c), sc_a = channelValue (rgba_a c)\<rparr>)"

definition deserializeColor :: "SerializedColor option \<Rightarrow> EntityColor" where
  "deserializeColor color =
    (case color of
       None \<Rightarrow> None
     | Some c \<Rightarrow> Some (fromValues (sc_r c) (sc_g c) (sc_b c) (sc_a c)))"

definition serializeTextBox :: "TextBox \<Rightarrow> SerializedTextBox" where
  "serializeTextBox box =
    \<lparr>stb_id = tb_id box, stb_x = tb_x box, stb_y = tb_y box,
     stb_chars = map (\<lambda>c. \<lparr>stc_char = tc_char c, stc_bold = tc_bold c,
                              stc_color = serializeColor (tc_color c)\<rparr>) (tb_chars box),
     stb_zIndex = tb_zIndex box,
     stb_strokeColor = serializeColor (tb_strokeColor box),
     stb_fillColor = serializeColor (tb_fillColor box)\<rparr>"

definition deserializeTextBox :: "SerializedTextBox \<Rightarrow> TextBox" where
  "deserializeTextBox box =
    \<lparr>tb_id = stb_id box, tb_x = stb_x box, tb_y = stb_y box,
     tb_chars = map (\<lambda>c. \<lparr>tc_char = stc_char c, tc_bold = stc_bold c,
                             tc_color = deserializeColor (stc_color c)\<rparr>) (stb_chars box),
     tb_zIndex = stb_zIndex box,
     tb_strokeColor = deserializeColor (stb_strokeColor box),
     tb_fillColor = deserializeColor (stb_fillColor box)\<rparr>"

definition serializeRectangle :: "Rectangle \<Rightarrow> SerializedRectangle" where
  "serializeRectangle rect =
    \<lparr>src_id = rc_id rect, src_x1 = rc_x1 rect, src_y1 = rc_y1 rect,
     src_x2 = rc_x2 rect, src_y2 = rc_y2 rect, src_bold = rc_bold rect,
     src_zIndex = rc_zIndex rect,
     src_strokeColor = serializeColor (rc_strokeColor rect),
     src_fillColor = serializeColor (rc_fillColor rect)\<rparr>"

definition deserializeRectangle :: "SerializedRectangle \<Rightarrow> Rectangle" where
  "deserializeRectangle rect =
    \<lparr>rc_id = src_id rect, rc_x1 = src_x1 rect, rc_y1 = src_y1 rect,
     rc_x2 = src_x2 rect, rc_y2 = src_y2 rect, rc_bold = src_bold rect,
     rc_zIndex = src_zIndex rect,
     rc_strokeColor = deserializeColor (src_strokeColor rect),
     rc_fillColor = deserializeColor (src_fillColor rect)\<rparr>"

definition serializeLine :: "Line \<Rightarrow> SerializedLine" where
  "serializeLine line =
    \<lparr>sln_id = ln_id line, sln_x1 = ln_x1 line, sln_y1 = ln_y1 line,
     sln_x2 = ln_x2 line, sln_y2 = ln_y2 line, sln_bold = ln_bold line,
     sln_zIndex = ln_zIndex line,
     sln_strokeColor = serializeColor (ln_strokeColor line),
     sln_fillColor = serializeColor (ln_fillColor line)\<rparr>"

definition deserializeLine :: "SerializedLine \<Rightarrow> Line" where
  "deserializeLine line =
    \<lparr>ln_id = sln_id line, ln_x1 = sln_x1 line, ln_y1 = sln_y1 line,
     ln_x2 = sln_x2 line, ln_y2 = sln_y2 line, ln_bold = sln_bold line,
     ln_zIndex = sln_zIndex line,
     ln_strokeColor = deserializeColor (sln_strokeColor line),
     ln_fillColor = deserializeColor (sln_fillColor line)\<rparr>"

definition toFileData :: "CanvasApp \<Rightarrow> TigmaFile" where
  "toFileData s =
    \<lparr>tf_version = 1,
     tf_textBoxes = map serializeTextBox (textBoxes s),
     tf_rectangles = map serializeRectangle (rectangles s),
     tf_lines = map serializeLine (lines s),
     tf_nextTextBoxId = nextTextBoxId s,
     tf_nextRectId = nextRectId s,
     tf_nextLineId = nextLineId s,
     tf_nextZIndex = nextZIndex s\<rparr>"

definition loadFromFileData :: "TigmaFile \<Rightarrow> CanvasApp \<Rightarrow> CanvasApp" where
  "loadFromFileData data s =
    (let s1 = s\<lparr>textBoxes := map deserializeTextBox (tf_textBoxes data),
                 rectangles := map deserializeRectangle (tf_rectangles data),
                 lines := map deserializeLine (tf_lines data),
                 nextTextBoxId := tf_nextTextBoxId data,
                 nextRectId := tf_nextRectId data,
                 nextLineId := tf_nextLineId data,
                 nextZIndex := tf_nextZIndex data,
                 activeTextBoxId := None,
                 hoveredTextBoxId := None,
                 hoveredRectId := None,
                 hoveredLineId := None\<rparr>;
         s2 = clearSelection s1
     in s2\<lparr>historyStack := [], redoStack := []\<rparr>)"

text \<open>
  \<^verbatim>\<open>loadFile\<close> reads and parses the file inside a \<^verbatim>\<open>try\<close> block and casts the result
  to \<^verbatim>\<open>TigmaFile\<close>; the cast checks nothing. \<open>RawFile\<close> is the parsed object as far as the
  loader reads it. Each of the three arrays is \<open>None\<close> when the property is absent or is
  not an array, so that \<^verbatim>\<open>.map\<close> on it throws a \<^verbatim>\<open>TypeError\<close>. An element of an array is
  \<open>None\<close> when the deserialiser throws on it: the element is \<^verbatim>\<open>null\<close>, a text run has no
  \<^verbatim>\<open>chars\<close> array or a \<^verbatim>\<open>null\<close> in it, or a colour property is absent
  (\<^verbatim>\<open>undefined === null\<close> is false, so \<^verbatim>\<open>deserializeColor\<close> reads \<^verbatim>\<open>.r\<close> of
  \<^verbatim>\<open>undefined\<close>). Any other element is taken with the fields its interface declares.
\<close>

record RawFile =
  raw_version :: int
  raw_textBoxes :: "SerializedTextBox option list option"
  raw_rectangles :: "SerializedRectangle option list option"
  raw_lines :: "SerializedLine option list option"
  raw_nextTextBoxId :: int
  raw_nextRectId :: int
  raw_nextLineId :: int
  raw_nextZIndex :: int

text \<open>The elements of an array that \<^verbatim>\<open>.map(deserialize...)\<close> runs through without a
  \<^verbatim>\<open>TypeError\<close>; \<open>None\<close> when it throws.\<close>

definition mappable :: "'a option list option \<Rightarrow> 'a list option" where
  "mappable field =
    (case field of
       None \<Rightarrow> None
     | Some xs \<Rightarrow> if list_all (\<lambda>x. x \<noteq> None) xs then Some (map the xs) else None)"

text \<open>The parsed object as a \<^verbatim>\<open>TigmaFile\<close>, when it has that shape.\<close>

definition asTigmaFile :: "RawFile \<Rightarrow> TigmaFile option" where
  "asTigmaFile raw =
    (case (mappable (raw_textBoxes raw), mappable (raw_rectangles raw),
           mappable (raw_lines raw)) of
       (Some bs, Some rs, Some ls) \<Rightarrow>
         Some \<lparr>tf_version = raw_version raw, tf_textBoxes = bs, tf_rectangles = rs,
               tf_lines = ls, tf_nextTextBoxId = raw_nextTextBoxId raw,
               tf_nextRectId = raw_nextRectId raw, tf_nextLineId = raw_nextLineId raw,
               tf_nextZIndex = raw_nextZIndex raw\<rparr>
     | _ \<Rightarrow> None)"

text \<open>
  On an object that lacks the shape, \<^verbatim>\<open>loadFromFileData\<close> throws at the first of its three
  \<^verbatim>\<open>.map\<close> statements that cannot run. The assignments before that statement have taken
  effect, the throwing statement and everything after it have not: this is the state in
  which the \<^verbatim>\<open>catch\<close> block of \<^verbatim>\<open>loadFile\<close> finds the application.
\<close>

definition loadFromFileDataThrows :: "RawFile \<Rightarrow> CanvasApp \<Rightarrow> CanvasApp" where
  "loadFromFileDataThrows raw s =
    (case mappable (raw_textBoxes raw) of
       None \<Rightarrow> s
     | Some bs \<Rightarrow>
         let s1 = s\<lparr>textBoxes := map deserializeTextBox bs\<rparr>
         in (case mappable (raw_rectangles raw) of
               None \<Rightarrow> s1
             | Some rs \<Rightarrow> s1\<lparr>rectangles := map deserializeRectangle rs\<rparr>))"

text \<open>
  What the file system and \<^verbatim>\<open>JSON.parse\<close> hand back is the argument of the model:
  reading throws, parsing throws, the parse yields a value that is not an object (reading
  \<^verbatim>\<open>.version\<close> of \<^verbatim>\<open>null\<close> throws, of a number, string, boolean or array it yields
  \<^verbatim>\<open>undefined\<close>, which is not 1), or it yields an object. \<^verbatim>\<open>path.resolve(filePath)\<close> is
  the argument \<open>absolutePath\<close>. The result is the boolean the method returns and the state
  it leaves.
\<close>

datatype FileContent = ReadThrows | ParseThrows | ParsedNonObject | Parsed RawFile

definition loadFile :: "string \<Rightarrow> FileContent \<Rightarrow> CanvasApp \<Rightarrow> bool \<times> CanvasApp" where
  "loadFile absolutePath content s =
    (case content of
       ReadThrows \<Rightarrow> (False, s)
     | ParseThrows \<Rightarrow> (False, s)
     | ParsedNonObject \<Rightarrow> (False, s)
     | Parsed raw \<Rightarrow>
         if raw_version raw \<noteq> 1 then (False, s)
         else (case asTigmaFile raw of
                 Some data \<Rightarrow>
                   (True, (loadFromFileData data s)\<lparr>currentFilePath := Some absolutePath\<rparr>)
               | None \<Rightarrow> (False, loadFromFileDataThrows raw s)))"

section \<open>Selection and moving\<close>

text \<open>\<^verbatim>\<open>Set.prototype.add\<close> on the insertion-ordered list.\<close>

definition setAdd :: "int \<Rightarrow> int list \<Rightarrow> int list" where
  "setAdd v xs = (if v \<in> set xs then xs else xs @ [v])"

text \<open>
  \<^verbatim>\<open>arr.find(p)\<close> followed by an assignment to fields of the object found changes the
  first element of the array that satisfies \<open>p\<close> and nothing when there is none. A
  \<^verbatim>\<open>for\<close> loop that assigns to the first element satisfying \<open>p\<close> and then executes
  \<^verbatim>\<open>break\<close> does the same.
\<close>

primrec updateFirst :: "('a \<Rightarrow> bool) \<Rightarrow> ('a \<Rightarrow> 'a) \<Rightarrow> 'a list \<Rightarrow> 'a list" where
  "updateFirst p f [] = []"
| "updateFirst p f (x # xs) = (if p x then f x # xs else x # updateFirst p f xs)"

definition getTotalSelectionCount :: "CanvasApp \<Rightarrow> nat" where
  "getTotalSelectionCount s =
    length (selectedTextBoxIds s) + length (selectedRectIds s) + length (selectedLineIds s)"

definition isMultiSelection :: "CanvasApp \<Rightarrow> bool" where
  "isMultiSelection s =
    (let total = length (selectedTextBoxIds s) + length (selectedRectIds s)
                 + length (selectedLineIds s)
     in total > 1)"

definition selectRect :: "int \<Rightarrow> bool \<Rightarrow> CanvasApp \<Rightarrow> CanvasApp" where
  "selectRect ident addToSelection s =
    (let s1 = (if \<not> addToSelection then clearSelection s else s)
     in s1\<lparr>selectedRectIds := setAdd ident (selectedRectIds s1)\<rparr>)"

definition moveSelection :: "int \<Rightarrow> int \<Rightarrow> CanvasApp \<Rightarrow> CanvasApp" where
  "moveSelection dx dy s =
    s\<lparr>textBoxes :=
        fold (\<lambda>ident. updateFirst (\<lambda>b. tb_id b = ident)
                (\<lambda>box. box\<lparr>tb_x := tb_x box + dx, tb_y := tb_y box + dy\<rparr>))
          (selectedTextBoxIds s) (textBoxes s),
      rectangles :=
        fold (\<lambda>ident. updateFirst (\<lambda>r. rc_id r = ident)
                (\<lambda>rect. rect\<lparr>rc_x1 := rc_x1 rect + dx, rc_y1 := rc_y1 rect + dy,
                              rc_x2 := rc_x2 rect + dx, rc_y2 := rc_y2 rect + dy\<rparr>))
          (selectedRectIds s) (rectangles s),
      lines :=
        fold (\<lambda>ident. updateFirst (\<lambda>l. ln_id l = ident)
                (\<lambda>line. line\<lparr>ln_x1 := ln_x1 line + dx, ln_y1 := ln_y1 line + dy,
                              ln_x2 := ln_x2 line + dx, ln_y2 := ln_y2 line + dy\<rparr>))
          (selectedLineIds s) (lines s)\<rparr>"

subsection \<open>The clamped single-entity moves\<close>

definition getTextLength :: "TextBox \<Rightarrow> int" where
  "getTextLength box = int (length (tb_chars box))"

definition moveTextBox :: "int \<Rightarrow> int \<Rightarrow> int \<Rightarrow> CanvasApp \<Rightarrow> CanvasApp" where
  "moveTextBox ident newX newY s =
    (case find (\<lambda>b. tb_id b = ident) (textBoxes s) of
       None \<Rightarrow> s
     | Some box \<Rightarrow>
         let newX1 = max 0 (min (gridWidth s - max 1 (getTextLength box)) newX);
             newY1 = max 0 (min (gridHeight s - 1) newY)
         in s\<lparr>textBoxes := updateFirst (\<lambda>b. tb_id b = ident)
                 (\<lambda>b. b\<lparr>tb_x := newX1, tb_y := newY1\<rparr>) (textBoxes s)\<rparr>)"

text \<open>\<^verbatim>\<open>normalizeRect\<close> and \<^verbatim>\<open>normalizeLine\<close> return the object \<^verbatim>\<open>{x1, y1, x2, y2}\<close>,
  here the tuple in that order.\<close>

definition normalizeRect :: "Rectangle \<Rightarrow> int \<times> int \<times> int \<times> int" where
  "normalizeRect rect =
    (min (rc_x1 rect) (rc_x2 rect), min (rc_y1 rect) (rc_y2 rect),
     max (rc_x1 rect) (rc_x2 rect), max (rc_y1 rect) (rc_y2 rect))"

definition normalizeLine :: "Line \<Rightarrow> int \<times> int \<times> int \<times> int" where
  "normalizeLine line =
    (min (ln_x1 line) (ln_x2 line), min (ln_y1 line) (ln_y2 line),
     max (ln_x1 line) (ln_x2 line), max (ln_y1 line) (ln_y2 line))"

definition moveRect :: "int \<Rightarrow> int \<Rightarrow> int \<Rightarrow> CanvasApp \<Rightarrow> CanvasApp" where
  "moveRect ident newX newY s =
    (case find (\<lambda>r. rc_id r = ident) (rectangles s) of
       None \<Rightarrow> s
     | Some rect \<Rightarrow>
         (case normalizeRect rect of (nx1, ny1, nx2, ny2) \<Rightarrow>
            let width = nx2 - nx1;
                height = ny2 - ny1;
                newX1 = max 0 (min (gridWidth s - width - 1) newX);
                newY1 = max 0 (min (gridHeight s - height - 1) newY)
            in s\<lparr>rectangles := updateFirst (\<lambda>r. rc_id r = ident)
                    (\<lambda>r. r\<lparr>rc_x1 := newX1, rc_y1 := newY1,
                            rc_x2 := newX1 + width, rc_y2 := newY1 + height\<rparr>)
                    (rectangles s)\<rparr>))"

definition moveLine :: "int \<Rightarrow> int \<Rightarrow> int \<Rightarrow> CanvasApp \<Rightarrow> CanvasApp" where
  "moveLine ident newX newY s =
    (case find (\<lambda>l. ln_id l = ident) (lines s) of
       None \<Rightarrow> s
     | Some line \<Rightarrow>
         (case normalizeLine line of (nx1, ny1, nx2, ny2) \<Rightarrow>
            let width = nx2 - nx1;
                height = ny2 - ny1;
                newX1 = max 0 (min (gridWidth s - width - 1) newX);
                newY1 = max 0 (min (gridHeight s - height - 1) newY);
                dx = newX1 - nx1;
                dy = newY1 - ny1
            in s\<lparr>lines := updateFirst (\<lambda>l. ln_id l = ident)
                    (\<lambda>l. l\<lparr>ln_x1 := ln_x1 l + dx, ln_y1 := ln_y1 l + dy,
                            ln_x2 := ln_x2 l + dx, ln_y2 := ln_y2 l + dy\<rparr>)
                    (lines s)\<rparr>))"

subsection \<open>Resizing and creating rectangles\<close>

definition resizeRect :: "int \<Rightarrow> int \<Rightarrow> int \<Rightarrow> CanvasApp \<Rightarrow> CanvasApp" where
  "resizeRect ident mouseX mouseY s =
    (case (find (\<lambda>r. rc_id r = ident) (rectangles s), resizeHandle s) of
       (Some rect, Some handle) \<Rightarrow>
         let mx = max 0 (min (gridWidth s - 1) mouseX);
             my = max 0 (min (gridHeight s - 1) mouseY);
             upd = (case handle of
                      NW \<Rightarrow> (\<lambda>r. r\<lparr>rc_x1 := mx, rc_y1 := my\<rparr>)
                    | NE \<Rightarrow> (\<lambda>r. r\<lparr>rc_x2 := mx, rc_y1 := my\<rparr>)
                    | SW \<Rightarrow> (\<lambda>r. r\<lparr>rc_x1 := mx, rc_y2 := my\<rparr>)
                    | SE \<Rightarrow> (\<lambda>r. r\<lparr>rc_x2 := mx, rc_y2 := my\<rparr>)
                    | N \<Rightarrow> (\<lambda>r. r\<lparr>rc_y1 := my\<rparr>)
                    | S \<Rightarrow> (\<lambda>r. r\<lparr>rc_y2 := my\<rparr>)
                    | W \<Rightarrow> (\<lambda>r. r\<lparr>rc_x1 := mx\<rparr>)
                    | E \<Rightarrow> (\<lambda>r. r\<lparr>rc_x2 := mx\<rparr>))
         in s\<lparr>rectangles := updateFirst (\<lambda>r. rc_id r = ident) upd (rectangles s)\<rparr>
     | _ \<Rightarrow> s)"

definition commitActiveTextBox :: "CanvasApp \<Rightarrow> CanvasApp" where
  "commitActiveTextBox s =
    (case activeTextBoxId s of
       None \<Rightarrow> s
     | Some active \<Rightarrow>
         let s1 = (case find (\<lambda>b. tb_id b = active) (textBoxes s) of
                     Some box \<Rightarrow>
                       if getTextLength box = 0
                       then s\<lparr>textBoxes := filter (\<lambda>b. tb_id b \<noteq> active) (textBoxes s)\<rparr>
                       else s
                   | None \<Rightarrow> s)
         in s1\<lparr>activeTextBoxId := None, textCursorPos := 0\<rparr>)"

definition setTool :: "Tool \<Rightarrow> CanvasApp \<Rightarrow> CanvasApp" where
  "setTool tool s =
    (let s1 = (if activeTextBoxId s \<noteq> None then commitActiveTextBox s else s);
         s2 = s1\<lparr>isDrawingRect := False, isDrawingLine := False, isSelecting := False,
                  isSelectionPending := False, isDraggingMouse := False,
                  currentTool := tool\<rparr>
     in if tool \<noteq> ToolMove
        then clearSelection (s2\<lparr>hoveredTextBoxId := None, hoveredRectId := None,
                                 hoveredLineId := None\<rparr>)
        else s2)"

definition commitRectangle :: "CanvasApp \<Rightarrow> CanvasApp" where
  "commitRectangle s =
    (if \<not> isDrawingRect s then s
     else
       let x1 = min (drawStartX s) (drawCursorX s);
           x2 = max (drawStartX s) (drawCursorX s);
           y1 = min (drawStartY s) (drawCursorY s);
           y2 = max (drawStartY s) (drawCursorY s);
           s3 = (if x2 > x1 \<or> y2 > y1
                 then
                   let s1 = saveSnapshot s;
                       rect = \<lparr>rc_id = nextRectId s1, rc_x1 = x1, rc_y1 = y1,
                               rc_x2 = x2, rc_y2 = y2, rc_bold = boldMode s1,
                               rc_zIndex = nextZIndex s1,
                               rc_strokeColor = currentStrokeColor s1,
                               rc_fillColor = currentFillColor s1\<rparr>;
                       s2 = s1\<lparr>nextRectId := nextRectId s1 + 1,
                                nextZIndex := nextZIndex s1 + 1,
                                rectangles := rectangles s1 @ [rect]\<rparr>
                   in selectRect (rc_id rect) False s2
                 else s)
       in setTool ToolMove (s3\<lparr>isDrawingRect := False\<rparr>))"

subsection \<open>The drag branch of the mouse handler\<close>

text \<open>
  \<^verbatim>\<open>handleMouse\<close> for an event of type \<^verbatim>\<open>"drag"\<close> at cell \<open>(ex, ey)\<close>: the guard on the
  toolbar row at the top of the method, then the branch \<^verbatim>\<open>if (event.type === "drag")\<close>.
  The colour-picker test and the hover update before it apply to other event types.
\<close>

definition handleMouseDrag :: "int \<Rightarrow> int \<Rightarrow> CanvasApp \<Rightarrow> CanvasApp" where
  "handleMouseDrag ex ey s =
    (if ey \<ge> gridHeight s then s
     else
       let s1 = (if ex \<noteq> mouseDownX s \<or> ey \<noteq> mouseDownY s
                 then s\<lparr>hasDragged := True\<rparr> else s);
           s2 = (if isSelectionPending s1 \<and> hasDragged s1 \<and> currentTool s1 = ToolMove
                 then s1\<lparr>isSelectionPending := False, isSelecting := True,
                          isDraggingMouse := True\<rparr>
                 else s1)
       in if isDraggingSelection s2
          then
            let dx = ex - dragStartX s2;
                dy = ey - dragStartY s2
            in (moveSelection dx dy s2)\<lparr>dragStartX := ex, dragStartY := ey\<rparr>
          else if isResizingRect s2
          then (case selectedRectIds s2 of
                  [] \<Rightarrow> s2
                | rectId # _ \<Rightarrow> resizeRect rectId ex ey s2)
          else if isDrawingRect s2 \<or> isDrawingLine s2 \<or> isSelecting s2
          then s2\<lparr>drawCursorX := max 0 (min (gridWidth s2 - 1) ex),
                  drawCursorY := max 0 (min (gridHeight s2 - 1) ey)\<rparr>
          else s2)"

section \<open>Line rasterisation\<close>

text \<open>
  \<^verbatim>\<open>getLinePoints\<close> runs \<^verbatim>\<open>while (true)\<close> and leaves it by \<^verbatim>\<open>break\<close> only. The loop is
  therefore a partial function into the option type: \<open>None\<close> stands for a loop that never
  leaves. The arguments of \<open>linePointsLoop\<close> are the constants \<open>dx dy sx sy x2 y2\<close> of the
  method followed by its mutable variables \<open>err x y points\<close>; a point \<^verbatim>\<open>{x, y}\<close> is a pair.
\<close>

partial_function (option) linePointsLoop ::
  "int \<Rightarrow> int \<Rightarrow> int \<Rightarrow> int \<Rightarrow> int \<Rightarrow> int \<Rightarrow> int \<Rightarrow> int \<Rightarrow> int \<Rightarrow> (int \<times> int) list
    \<Rightarrow> (int \<times> int) list option" where
  "linePointsLoop dx dy sx sy x2 y2 err x y points =
    (let points1 = points @ [(x, y)]
     in if x = x2 \<and> y = y2 then Some points1
        else
          let e2 = 2 * err;
              err1 = (if e2 > - dy then err - dy else err);
              xn = (if e2 > - dy then x + sx else x);
              err2 = (if e2 < dx then err1 + dx else err1);
              yn = (if e2 < dx then y + sy else y)
          in linePointsLoop dx dy sx sy x2 y2 err2 xn yn points1)"

declare linePointsLoop.simps [code]

definition getLinePoints :: "int \<Rightarrow> int \<Rightarrow> int \<Rightarrow> int \<Rightarrow> (int \<times> int) list option" where
  "getLinePoints x1 y1 x2 y2 =
    (let dx = \<bar>x2 - x1\<bar>;
         dy = \<bar>y2 - y1\<bar>;
         sx = (if x1 < x2 then 1 else - 1);
         sy = (if y1 < y2 then 1 else - 1);
         err = dx - dy
     in linePointsLoop dx dy sx sy x2 y2 err x1 y1 [])"

section \<open>Layer management\<close>

datatype ObjType = TypeText | TypeRect | TypeLine

record SelectedObject =
  so_type :: ObjType
  so_zIndex :: int
  so_id :: int

definition getSelectedObject :: "CanvasApp \<Rightarrow> SelectedObject option" where
  "getSelectedObject s =
    (case (if length (selectedTextBoxIds s) = 1
           then find (\<lambda>b. tb_id b = hd (selectedTextBoxIds s)) (textBoxes s) else None) of
       Some box \<Rightarrow> Some \<lparr>so_type = TypeText, so_zIndex = tb_zIndex box, so_id = tb_id box\<rparr>
     | None \<Rightarrow>
     (case (if length (selectedRectIds s) = 1
            then find (\<lambda>r. rc_id r = hd (selectedRectIds s)) (rectangles s) else None) of
       Some rect \<Rightarrow> Some \<lparr>so_type = TypeRect, so_zIndex = rc_zIndex rect, so_id = rc_id rect\<rparr>
     | None \<Rightarrow>
     (case (if length (selectedLineIds s) = 1
            then find (\<lambda>l. ln_id l = hd (selectedLineIds s)) (lines s) else None) of
       Some line \<Rightarrow> Some \<lparr>so_type = TypeLine, so_zIndex = ln_zIndex line, so_id = ln_id line\<rparr>
     | None \<Rightarrow> None)))"

text \<open>The z-indices in the order \<^verbatim>\<open>getAllZIndices\<close> pushes them, before it sorts.\<close>

definition collectZIndices :: "CanvasApp \<Rightarrow> int list" where
  "collectZIndices s =
    map tb_zIndex (textBoxes s) @ map rc_zIndex (rectangles s) @ map ln_zIndex (lines s)"

definition getAllZIndices :: "CanvasApp \<Rightarrow> int list" where
  "getAllZIndices s = sort (collectZIndices s)"

text \<open>\<^verbatim>\<open>Array.prototype.indexOf\<close>: the first position of the value, \<open>-1\<close> when absent.\<close>

fun indexOf :: "int list \<Rightarrow> int \<Rightarrow> int" where
  "indexOf [] v = - 1"
| "indexOf (x # xs) v =
    (if x = v then 0 else (let i = indexOf xs v in if i < 0 then - 1 else i + 1))"

text \<open>
  The part that \<^verbatim>\<open>moveLayerDown\<close> and \<^verbatim>\<open>moveLayerUp\<close> share word for word: after the
  snapshot, the first entity of each collection whose z-index is \<open>otherZ\<close> receives the
  selected entity's z-index, then the selected entity, found by its id in the collection of
  its type, receives \<open>otherZ\<close>.
\<close>

definition swapZIndex :: "SelectedObject \<Rightarrow> int \<Rightarrow> CanvasApp \<Rightarrow> CanvasApp" where
  "swapZIndex selected otherZ s =
    (let s1 = saveSnapshot s;
         s2 = s1\<lparr>textBoxes := updateFirst (\<lambda>b. tb_zIndex b = otherZ)
                    (\<lambda>b. b\<lparr>tb_zIndex := so_zIndex selected\<rparr>) (textBoxes s1)\<rparr>;
         s3 = s2\<lparr>rectangles := updateFirst (\<lambda>r. rc_zIndex r = otherZ)
                    (\<lambda>r. r\<lparr>rc_zIndex := so_zIndex selected\<rparr>) (rectangles s2)\<rparr>;
         s4 = s3\<lparr>lines := updateFirst (\<lambda>l. ln_zIndex l = otherZ)
                    (\<lambda>l. l\<lparr>ln_zIndex := so_zIndex selected\<rparr>) (lines s3)\<rparr>
     in case so_type selected of
          TypeText \<Rightarrow>
            s4\<lparr>textBoxes := updateFirst (\<lambda>b. tb_id b = so_id selected)
                  (\<lambda>b. b\<lparr>tb_zIndex := otherZ\<rparr>) (textBoxes s4)\<rparr>
        | TypeRect \<Rightarrow>
            s4\<lparr>rectangles := updateFirst (\<lambda>r. rc_id r = so_id selected)
                  (\<lambda>r. r\<lparr>rc_zIndex := otherZ\<rparr>) (rectangles s4)\<rparr>
        | TypeLine \<Rightarrow>
            s4\<lparr>lines := updateFirst (\<lambda>l. ln_id l = so_id selected)
                  (\<lambda>l. l\<lparr>ln_zIndex := otherZ\<rparr>) (lines s4)\<rparr>)"

definition moveLayerDown :: "CanvasApp \<Rightarrow> CanvasApp" where
  "moveLayerDown s =
    (case getSelectedObject s of
       None \<Rightarrow> s
     | Some selected \<Rightarrow>
         let allZIndices = getAllZIndices s;
             currentIndex = indexOf allZIndices (so_zIndex selected)
         in if currentIndex \<le> 0 then s
            else
              let lowerZ = allZIndices ! nat (currentIndex - 1)
              in swapZIndex selected lowerZ s)"

definition moveLayerUp :: "CanvasApp \<Rightarrow> CanvasApp" where
  "moveLayerUp s =
    (case getSelectedObject s of
       None \<Rightarrow> s
     | Some selected \<Rightarrow>
         let allZIndices = getAllZIndices s;
             currentIndex = indexOf allZIndices (so_zIndex selected)
         in if currentIndex \<ge> int (length allZIndices) - 1 then s
            else
              let higherZ = allZIndices ! nat (currentIndex + 1)
              in swapZIndex selected higherZ s)"

section \<open>Predicates of the specification\<close>

text \<open>The channel range that the persisted format promises for a colour record.\<close>

definition channelsInRange :: "SerializedColor \<Rightarrow> bool" where
  "channelsInRange c =
    (0 \<le> sc_r c \<and> sc_r c \<le> 255 \<and> 0 \<le> sc_g c \<and> sc_g c \<le> 255
     \<and> 0 \<le> sc_b c \<and> sc_b c \<le> 255 \<and> 0 \<le> sc_a c \<and> sc_a c \<le> 255)"

definition serializedColorOk :: "SerializedColor option \<Rightarrow> bool" where
  "serializedColorOk c = (case c of None \<Rightarrow> True | Some v \<Rightarrow> channelsInRange v)"

text \<open>
  The document that a persisted record stands for, in the words of the specification: the
  three entity arrays with ``colors encoded as nullable 4-tuples, everything else as plain
  numbers/strings/booleans'', and the four counters. \<^verbatim>\<open>null\<close> is the transparent colour, a
  4-tuple is the colour with those four channels.
\<close>

definition colourOfRecord :: "SerializedColor option \<Rightarrow> EntityColor" where
  "colourOfRecord c =
    (case c of
       None \<Rightarrow> None
     | Some v \<Rightarrow> Some \<lparr>rgba_r = toChannel (sc_r v), rgba_g = toChannel (sc_g v),
                      rgba_b = toChannel (sc_b v), rgba_a = toChannel (sc_a v)\<rparr>)"

definition textRunOfRecord :: "SerializedTextBox \<Rightarrow> TextBox" where
  "textRunOfRecord b =
    \<lparr>tb_id = stb_id b, tb_x = stb_x b, tb_y = stb_y b,
     tb_chars = map (\<lambda>c. \<lparr>tc_char = stc_char c, tc_bold = stc_bold c,
                             tc_color = colourOfRecord (stc_color c)\<rparr>) (stb_chars b),
     tb_zIndex = stb_zIndex b,
     tb_strokeColor = colourOfRecord (stb_strokeColor b),
     tb_fillColor = colourOfRecord (stb_fillColor b)\<rparr>"

definition rectangleOfRecord :: "SerializedRectangle \<Rightarrow> Rectangle" where
  "rectangleOfRecord r =
    \<lparr>rc_id = src_id r, rc_x1 = src_x1 r, rc_y1 = src_y1 r, rc_x2 = src_x2 r,
     rc_y2 = src_y2 r, rc_bold = src_bold r, rc_zIndex = src_zIndex r,
     rc_strokeColor = colourOfRecord (src_strokeColor r),
     rc_fillColor = colourOfRecord (src_fillColor r)\<rparr>"

definition lineOfRecord :: "SerializedLine \<Rightarrow> Line" where
  "lineOfRecord l =
    \<lparr>ln_id = sln_id l, ln_x1 = sln_x1 l, ln_y1 = sln_y1 l, ln_x2 = sln_x2 l,
     ln_y2 = sln_y2 l, ln_bold = sln_bold l, ln_zIndex = sln_zIndex l,
     ln_strokeColor = colourOfRecord (sln_strokeColor l),
     ln_fillColor = colourOfRecord (sln_fillColor l)\<rparr>"

text \<open>
  What a resize does to a rectangle, in the words of the specification: the pointer cell
  is set on ``the active handle's axis/axes''. The three western handles carry the first
  column, the three eastern ones the second column, the three northern ones the first row
  and the three southern ones the second row; every other field stays.
\<close>

definition resizedCorners :: "ResizeHandle \<Rightarrow> int \<Rightarrow> int \<Rightarrow> Rectangle \<Rightarrow> Rectangle" where
  "resizedCorners h cx cy r =
    r\<lparr>rc_x1 := (if h \<in> {NW, W, SW} then cx else rc_x1 r),
      rc_y1 := (if h \<in> {NW, N, NE} then cy else rc_y1 r),
      rc_x2 := (if h \<in> {NE, E, SE} then cx else rc_x2 r),
      rc_y2 := (if h \<in> {SW, S, SE} then cy else rc_y2 r)\<rparr>"

text \<open>Exchanging two z-index values \<open>a\<close> and \<open>b\<close>: the transposition on z-indices, and the
  document in which every entity's z-index went through it.\<close>

definition swapZ :: "int \<Rightarrow> int \<Rightarrow> int \<Rightarrow> int" where
  "swapZ a b z = (if z = a then b else if z = b then a else z)"

definition zSwappedDocument :: "int \<Rightarrow> int \<Rightarrow> CanvasApp \<Rightarrow> HistorySnapshot" where
  "zSwappedDocument a b s =
    \<lparr>hs_textBoxes = map (\<lambda>t. t\<lparr>tb_zIndex := swapZ a b (tb_zIndex t)\<rparr>) (textBoxes s),
     hs_rectangles = map (\<lambda>r. r\<lparr>rc_zIndex := swapZ a b (rc_zIndex r)\<rparr>) (rectangles s),
     hs_lines = map (\<lambda>l. l\<lparr>ln_zIndex := swapZ a b (ln_zIndex l)\<rparr>) (lines s),
     hs_nextTextBoxId = nextTextBoxId s, hs_nextRectId = nextRectId s,
     hs_nextLineId = nextLineId s, hs_nextZIndex = nextZIndex s\<rparr>"

section \<open>Concrete states used as test inputs\<close>

text \<open>An 80 by 24 canvas holding one empty text run, after one snapshot.\<close>

definition oneTextApp :: CanvasApp where
  "oneTextApp = (initialApp 80 24)\<lparr>
     textBoxes := [\<lparr>tb_id = 1, tb_x = 3, tb_y = 4, tb_chars = [], tb_zIndex = 1,
                    tb_strokeColor = None, tb_fillColor = None\<rparr>],
     nextTextBoxId := 2, nextZIndex := 2,
     historyStack := [document (initialApp 80 24)]\<rparr>"

text \<open>A canvas whose undo stack is full.\<close>

definition fullHistoryApp :: CanvasApp where
  "fullHistoryApp =
     (initialApp 80 24)\<lparr>historyStack := replicate 100 (document (initialApp 80 24)),
                         nextZIndex := 7\<rparr>"

text \<open>A parsed version-1 object with one text run ``hi'' (a red first character), one
  rectangle and one line; the same object tagged with version 2; and the same object
  without its \<^verbatim>\<open>lines\<close> array.\<close>

definition sampleFile :: RawFile where
  "sampleFile =
    \<lparr>raw_version = 1,
     raw_textBoxes = Some [Some
       \<lparr>stb_id = 3, stb_x = 7, stb_y = 2,
        stb_chars = [\<lparr>stc_char = ''h'', stc_bold = True,
                      stc_color = Some \<lparr>sc_r = 255, sc_g = 100, sc_b = 100, sc_a = 255\<rparr>\<rparr>,
                     \<lparr>stc_char = ''i'', stc_bold = False, stc_color = None\<rparr>],
        stb_zIndex = 4,
        stb_strokeColor = Some \<lparr>sc_r = 255, sc_g = 255, sc_b = 255, sc_a = 255\<rparr>,
        stb_fillColor = None\<rparr>],
     raw_rectangles = Some [Some
       \<lparr>src_id = 1, src_x1 = 9, src_y1 = 8, src_x2 = 4, src_y2 = 5, src_bold = True,
        src_zIndex = 2, src_strokeColor = None,
        src_fillColor = Some \<lparr>sc_r = 30, sc_g = 30, sc_b = 80, sc_a = 255\<rparr>\<rparr>],
     raw_lines = Some [Some
       \<lparr>sln_id = 2, sln_x1 = 0, sln_y1 = 6, sln_x2 = 0, sln_y2 = 6, sln_bold = False,
        sln_zIndex = 1,
        sln_strokeColor = Some \<lparr>sc_r = 100, sc_g = 255, sc_b = 100, sc_a = 255\<rparr>,
        sln_fillColor = None\<rparr>],
     raw_nextTextBoxId = 4, raw_nextRectId = 2, raw_nextLineId = 3, raw_nextZIndex = 5\<rparr>"

definition futureFile :: RawFile where
  "futureFile = sampleFile\<lparr>raw_version := 2\<rparr>"

definition truncatedFile :: RawFile where
  "truncatedFile = sampleFile\<lparr>raw_lines := None\<rparr>"

text \<open>A canvas with one rectangle and one line drawn with palette colours.\<close>

definition paletteApp :: CanvasApp where
  "paletteApp = (initialApp 80 24)\<lparr>
     rectangles := [\<lparr>rc_id = 1, rc_x1 = 1, rc_y1 = 1, rc_x2 = 4, rc_y2 = 4, rc_bold = False,
                     rc_zIndex = 1, rc_strokeColor = Some (fromInts 255 100 100 255),
                     rc_fillColor = Some (fromInts 30 30 80 255)\<rparr>],
     lines := [\<lparr>ln_id = 1, ln_x1 = 0, ln_y1 = 0, ln_x2 = 2, ln_y2 = 1, ln_bold = True,
                ln_zIndex = 2, ln_strokeColor = Some (fromInts 255 255 255 255),
                ln_fillColor = None\<rparr>],
     nextRectId := 2, nextLineId := 2, nextZIndex := 3\<rparr>"

text \<open>The rectangle tool at the end of a draw gesture from cell (1,1) to cell (4,3) on an
  empty canvas, and the state after that gesture is committed and then undone: the undo
  stack is empty again and the redo stack holds the document with the rectangle.\<close>

definition drawingApp :: CanvasApp where
  "drawingApp = (initialApp 80 24)\<lparr>
     currentTool := ToolRectangle, isDrawingRect := True, isDraggingMouse := True,
     drawStartX := 1, drawStartY := 1, drawCursorX := 4, drawCursorY := 3\<rparr>"

definition drawnThenUndoneApp :: CanvasApp where
  "drawnThenUndoneApp = undo (commitRectangle drawingApp)"

text \<open>The rectangle tool in the middle of a draw gesture that starts at cell (5,5) and
  has reached cell (2,2): a drag from the lower right to the upper left.\<close>

definition dragUpLeftApp :: CanvasApp where
  "dragUpLeftApp = (initialApp 80 24)\<lparr>
     currentTool := ToolRectangle, isDrawingRect := True, isDraggingMouse := True,
     drawStartX := 5, drawStartY := 5, drawCursorX := 2, drawCursorY := 2\<rparr>"

text \<open>One selected rectangle (2,2)-(5,5) whose north-west handle is being dragged.\<close>

definition resizingApp :: CanvasApp where
  "resizingApp = (initialApp 80 24)\<lparr>
     rectangles := [\<lparr>rc_id = 1, rc_x1 = 2, rc_y1 = 2, rc_x2 = 5, rc_y2 = 5, rc_bold = False,
                     rc_zIndex = 1, rc_strokeColor = Some (fromInts 255 255 255 255),
                     rc_fillColor = None\<rparr>],
     nextRectId := 2, nextZIndex := 2, selectedRectIds := [1],
     isResizingRect := True, resizeHandle := Some NW, isDraggingMouse := True\<rparr>"

text \<open>One selected text run ``abc'' at cell (0,0), grabbed at its third character (cell
  (2,0)) and about to be dragged.\<close>

definition textDragApp :: CanvasApp where
  "textDragApp = (initialApp 80 24)\<lparr>
     textBoxes := [\<lparr>tb_id = 1, tb_x = 0, tb_y = 0,
                    tb_chars = [\<lparr>tc_char = ''a'', tc_bold = False, tc_color = None\<rparr>,
                                \<lparr>tc_char = ''b'', tc_bold = False, tc_color = None\<rparr>,
                                \<lparr>tc_char = ''c'', tc_bold = False, tc_color = None\<rparr>],
                    tb_zIndex = 1, tb_strokeColor = None, tb_fillColor = None\<rparr>],
     nextTextBoxId := 2, nextZIndex := 2, selectedTextBoxIds := [1],
     isDraggingSelection := True, isDraggingMouse := True,
     dragStartX := 2, dragStartY := 0, mouseDownX := 2, mouseDownY := 0\<rparr>"

text \<open>Three layers: a text run at z-index 1, a rectangle at 2 and a line at 5. In
  \<open>layersApp\<close> the rectangle is the selection, in \<open>bottomSelectedApp\<close> the text run.\<close>

definition layersApp :: CanvasApp where
  "layersApp = (initialApp 80 24)\<lparr>
     textBoxes := [\<lparr>tb_id = 1, tb_x = 3, tb_y = 4,
                    tb_chars = [\<lparr>tc_char = ''a'', tc_bold = False, tc_color = None\<rparr>],
                    tb_zIndex = 1, tb_strokeColor = None, tb_fillColor = None\<rparr>],
     rectangles := [\<lparr>rc_id = 1, rc_x1 = 1, rc_y1 = 1, rc_x2 = 4, rc_y2 = 4, rc_bold = False,
                     rc_zIndex = 2, rc_strokeColor = None, rc_fillColor = None\<rparr>],
     lines := [\<lparr>ln_id = 1, ln_x1 = 0, ln_y1 = 0, ln_x2 = 2, ln_y2 = 1, ln_bold = False,
                ln_zIndex = 5, ln_strokeColor = None, ln_fillColor = None\<rparr>],
     nextTextBoxId := 2, nextRectId := 2, nextLineId := 2, nextZIndex := 6,
     selectedRectIds := [1]\<rparr>"

definition rectSelected :: SelectedObject where
  "rectSelected = \<lparr>so_type = TypeRect, so_zIndex = 2, so_id = 1\<rparr>"

definition bottomSelectedApp :: CanvasApp where
  "bottomSelectedApp = layersApp\<lparr>selectedRectIds := [], selectedTextBoxIds := [1]\<rparr>"

definition textSelected :: SelectedObject where
  "textSelected = \<lparr>so_type = TypeText, so_zIndex = 1, so_id = 1\<rparr>"

section \<open>Properties of the history\<close>

lemma cloneTextBoxes_id: "cloneTextBoxes bs = bs"
  by (simp add: cloneTextBoxes_def)

lemma cloneRectangles_id: "cloneRectangles rs = rs"
  by (simp add: cloneRectangles_def)

lemma cloneLines_id: "cloneLines ls = ls"
  by (simp add: cloneLines_def)

lemma currentSnapshot_document: "currentSnapshot s = document s"
  by (simp add: currentSnapshot_def document_def cloneTextBoxes_id cloneRectangles_id
      cloneLines_id)

lemma document_installSnapshot: "document (installSnapshot snap s) = snap"
  by (simp add: document_def installSnapshot_def clearSelection_def)

lemma historyStack_installSnapshot: "historyStack (installSnapshot snap s) = historyStack s"
  by (simp add: installSnapshot_def clearSelection_def)

lemma redoStack_installSnapshot: "redoStack (installSnapshot snap s) = redoStack s"
  by (simp add: installSnapshot_def clearSelection_def)

lemma undo_unfold:
  "historyStack s \<noteq> [] \<Longrightarrow>
   undo s = installSnapshot (last (historyStack s))
     (s\<lparr>redoStack := redoStack s @ [document s], historyStack := butlast (historyStack s)\<rparr>)"
  by (simp add: undo_def Let_def currentSnapshot_document)

lemma redo_unfold:
  "redoStack s \<noteq> [] \<Longrightarrow>
   redo s = installSnapshot (last (redoStack s))
     (s\<lparr>historyStack := historyStack s @ [document s], redoStack := butlast (redoStack s)\<rparr>)"
  by (simp add: redo_def Let_def currentSnapshot_document)

lemma redoStack_undo:
  "historyStack s \<noteq> [] \<Longrightarrow> redoStack (undo s) = redoStack s @ [document s]"
  by (simp add: undo_unfold redoStack_installSnapshot)

lemma historyStack_undo:
  "historyStack s \<noteq> [] \<Longrightarrow> historyStack (undo s) = butlast (historyStack s)"
  by (simp add: undo_unfold historyStack_installSnapshot)

lemma document_undo:
  "historyStack s \<noteq> [] \<Longrightarrow> document (undo s) = last (historyStack s)"
  by (simp add: undo_unfold document_installSnapshot)

text \<open>
  Claim C1, as stated, fails for a state whose undo stack is empty while its redo stack is
  not. Such a state arises from one draw gesture followed by one undo:
  \<open>drawnThenUndoneApp\<close> has an empty canvas, an empty undo stack and the drawn rectangle on
  its redo stack. There \<^verbatim>\<open>undo\<close> does nothing, the \<^verbatim>\<open>redo\<close> that follows brings the
  rectangle back, and the document is no longer the one that held before the undo.
\<close>

theorem undo_redo_on_empty_history_differs:
  "historyStack drawnThenUndoneApp = []
   \<and> length (redoStack drawnThenUndoneApp) = 1
   \<and> rectangles drawnThenUndoneApp = []
   \<and> undo drawnThenUndoneApp = drawnThenUndoneApp
   \<and> map (\<lambda>r. (rc_x1 r, rc_y1 r, rc_x2 r, rc_y2 r))
        (rectangles (redo (undo drawnThenUndoneApp))) = [(1, 1, 4, 3)]
   \<and> document (redo (undo drawnThenUndoneApp)) \<noteq> document drawnThenUndoneApp"
proof -
  define c where "c = commitRectangle drawingApp"
  have c1: "historyStack c = [document (initialApp 80 24)]" "redoStack c = []"
    "map (\<lambda>r. (rc_x1 r, rc_y1 r, rc_x2 r, rc_y2 r)) (rectangles c) = [(1, 1, 4, 3)]"
    by (simp_all add: c_def commitRectangle_def drawingApp_def initialApp_def saveSnapshot_def
        selectRect_def setTool_def clearSelection_def currentSnapshot_def cloneTextBoxes_def
        cloneRectangles_def cloneLines_def document_def MAX_HISTORY_def setAdd_def Let_def)
  have u: "drawnThenUndoneApp = undo c" by (simp add: drawnThenUndoneApp_def c_def)
  have h: "historyStack c \<noteq> []" by (simp add: c1)
  have u1: "historyStack drawnThenUndoneApp = []"
    by (simp add: u historyStack_undo [OF h] c1)
  have u2: "redoStack drawnThenUndoneApp = [document c]"
    by (simp add: u redoStack_undo [OF h] c1)
  have u3: "document drawnThenUndoneApp = document (initialApp 80 24)"
    by (simp add: u document_undo [OF h] c1)
  have u4: "rectangles drawnThenUndoneApp = []"
    using u3 by (simp add: document_def initialApp_def)
  have n: "undo drawnThenUndoneApp = drawnThenUndoneApp"
    by (simp add: undo_def u1)
  have r: "document (redo drawnThenUndoneApp) = document c"
    by (simp add: redo_unfold u2 document_installSnapshot)
  then have r1: "rectangles (redo drawnThenUndoneApp) = rectangles c"
    by (simp add: document_def)
  have "rectangles (redo drawnThenUndoneApp) \<noteq> rectangles drawnThenUndoneApp"
    using c1(3) by (auto simp add: r1 u4)
  then have d: "document (redo drawnThenUndoneApp) \<noteq> document drawnThenUndoneApp"
    by (auto simp add: document_def)
  show ?thesis
    using u1 u2 u4 n c1(3) d by (simp add: r1)
qed

text \<open>
  Claim C1, amended. For every state whose undo stack is not empty, whatever its depth, and
  for every state whose redo stack is empty, an undo immediately followed by a redo
  restores the document that held before the undo (the three entity collections and the
  four counters) and both stacks. With an empty undo stack \<^verbatim>\<open>undo\<close> changes nothing, and
  with an empty redo stack \<^verbatim>\<open>redo\<close> changes nothing.
\<close>

theorem undo_redo_restores:
  "(historyStack s \<noteq> [] \<or> redoStack s = [] \<longrightarrow>
      document (redo (undo s)) = document s
      \<and> historyStack (redo (undo s)) = historyStack s
      \<and> redoStack (redo (undo s)) = redoStack s)
   \<and> (historyStack s = [] \<longrightarrow> undo s = s)
   \<and> (redoStack s = [] \<longrightarrow> redo s = s)"
proof (intro conjI impI)
  show "undo s = s" if "historyStack s = []"
    using that by (simp add: undo_def)
  show "redo s = s" if "redoStack s = []"
    using that by (simp add: redo_def)
  assume a: "historyStack s \<noteq> [] \<or> redoStack s = []"
  show "document (redo (undo s)) = document s"
  proof (cases "historyStack s = []")
    case True
    with a show ?thesis by (simp add: undo_def redo_def)
  next
    case False
    then have "redoStack (undo s) \<noteq> []" by (simp add: redoStack_undo)
    then show ?thesis
      using False by (simp add: redo_unfold document_installSnapshot redoStack_undo)
  qed
  show "historyStack (redo (undo s)) = historyStack s"
  proof (cases "historyStack s = []")
    case True
    with a show ?thesis by (simp add: undo_def redo_def)
  next
    case False
    then have "redoStack (undo s) \<noteq> []" by (simp add: redoStack_undo)
    then show ?thesis
      using False
      by (simp add: redo_unfold historyStack_installSnapshot historyStack_undo document_undo)
  qed
  show "redoStack (redo (undo s)) = redoStack s"
  proof (cases "historyStack s = []")
    case True
    with a show ?thesis by (simp add: undo_def redo_def)
  next
    case False
    then have "redoStack (undo s) \<noteq> []" by (simp add: redoStack_undo)
    then show ?thesis
      using False by (simp add: redo_unfold redoStack_installSnapshot redoStack_undo)
  qed
qed

theorem undo_redo_restores_witness:
  "historyStack oneTextApp \<noteq> []
   \<and> document (redo (undo oneTextApp)) = document oneTextApp
   \<and> historyStack (initialApp 80 24) = []
   \<and> redoStack (initialApp 80 24) = []
   \<and> undo (initialApp 80 24) = initialApp 80 24
   \<and> redo (initialApp 80 24) = initialApp 80 24"
  using undo_redo_restores [of oneTextApp] undo_redo_restores [of "initialApp 80 24"]
  by (simp add: oneTextApp_def initialApp_def)

lemma historyStack_saveSnapshot:
  "historyStack (saveSnapshot s) =
    (if length (historyStack s) < 100 then historyStack s @ [currentSnapshot s]
     else tl (historyStack s @ [currentSnapshot s]))"
  by (auto simp add: saveSnapshot_def Let_def MAX_HISTORY_def)

lemma length_historyStack_saveSnapshot:
  "length (historyStack s) \<le> 100 \<Longrightarrow>
   length (historyStack (saveSnapshot s)) = min 100 (length (historyStack s) + 1)"
  by (simp add: historyStack_saveSnapshot)

lemma length_historyStack_funpow:
  "length (historyStack s) \<le> 100 \<Longrightarrow>
   length (historyStack ((saveSnapshot ^^ n) s)) = min 100 (length (historyStack s) + n)"
proof (induction n)
  case 0
  then show ?case by simp
next
  case (Suc n)
  then have "length (historyStack ((saveSnapshot ^^ n) s)) \<le> 100" by simp
  then show ?case
    using Suc by (simp add: length_historyStack_saveSnapshot)
qed

text \<open>
  Claim C3. Starting from an undo stack of at most 100 entries, any number \<open>n\<close> of
  \<^verbatim>\<open>saveSnapshot\<close> calls leaves the stack with \<open>min 100 (length + n)\<close> entries, so never
  more than 100. Below the cap a snapshot is appended. At the cap, the 101st push drops the
  oldest entry (the head of the list) and appends the new one. Every call empties the redo
  stack.
\<close>

theorem saveSnapshot_history_bounded:
  "(length (historyStack s) \<le> 100 \<longrightarrow>
      length (historyStack ((saveSnapshot ^^ n) s)) = min 100 (length (historyStack s) + n))
   \<and> (length (historyStack s) < 100 \<longrightarrow>
      historyStack (saveSnapshot s) = historyStack s @ [currentSnapshot s])
   \<and> (length (historyStack s) = 100 \<longrightarrow>
      historyStack (saveSnapshot s) = tl (historyStack s) @ [currentSnapshot s])
   \<and> redoStack (saveSnapshot s) = []"
proof (intro conjI impI)
  show "length (historyStack ((saveSnapshot ^^ n) s)) = min 100 (length (historyStack s) + n)"
    if "length (historyStack s) \<le> 100"
    using that by (rule length_historyStack_funpow)
  show "historyStack (saveSnapshot s) = historyStack s @ [currentSnapshot s]"
    if "length (historyStack s) < 100"
    using that by (simp add: historyStack_saveSnapshot)
  show "historyStack (saveSnapshot s) = tl (historyStack s) @ [currentSnapshot s]"
    if "length (historyStack s) = 100"
  proof -
    from that have "historyStack s \<noteq> []" by auto
    with that show ?thesis by (simp add: historyStack_saveSnapshot)
  qed
  show "redoStack (saveSnapshot s) = []"
    by (simp add: saveSnapshot_def Let_def)
qed

theorem saveSnapshot_history_bounded_witness:
  "length (historyStack fullHistoryApp) \<le> 100
   \<and> length (historyStack fullHistoryApp) = 100
   \<and> length (historyStack (initialApp 80 24)) < 100
   \<and> length (historyStack ((saveSnapshot ^^ 3) fullHistoryApp)) = 100
   \<and> historyStack (saveSnapshot fullHistoryApp)
       = tl (historyStack fullHistoryApp) @ [currentSnapshot fullHistoryApp]
   \<and> historyStack (saveSnapshot (initialApp 80 24)) = [currentSnapshot (initialApp 80 24)]"
  using saveSnapshot_history_bounded [of fullHistoryApp 3]
    saveSnapshot_history_bounded [of "initialApp 80 24" 1]
  by (simp add: fullHistoryApp_def initialApp_def)

section \<open>Properties of the file codec\<close>

lemma channelValue_range: "0 \<le> channelValue c \<and> channelValue c \<le> 255"
  using Rep_channel [of c] by (simp add: channelValue_def)

lemma toChannel_channelValue: "toChannel (channelValue c) = c"
  using channelValue_range [of c]
  by (simp add: toChannel_def channelValue_def Rep_channel_inverse)

lemma channelValue_toChannel: "channelValue (toChannel v) = max 0 (min 255 v)"
  by (simp add: toChannel_def channelValue_def Abs_channel_inverse)

lemma deserialize_serializeColor: "deserializeColor (serializeColor c) = c"
  by (cases c)
    (simp_all add: deserializeColor_def serializeColor_def fromValues_def
      toChannel_channelValue)

lemma TextChar_rebuild:
  "\<lparr>tc_char = tc_char c, tc_bold = tc_bold c, tc_color = tc_color c\<rparr> = (c::TextChar)"
  by simp

lemma deserialize_serializeTextBox: "deserializeTextBox (serializeTextBox b) = b"
  by (simp add: deserializeTextBox_def serializeTextBox_def deserialize_serializeColor
      comp_def TextChar_rebuild)

lemma deserialize_serializeRectangle: "deserializeRectangle (serializeRectangle r) = r"
  by (simp add: deserializeRectangle_def serializeRectangle_def deserialize_serializeColor)

lemma deserialize_serializeLine: "deserializeLine (serializeLine l) = l"
  by (simp add: deserializeLine_def serializeLine_def deserialize_serializeColor)

lemma document_loadFromFileData:
  "document (loadFromFileData data s) =
    \<lparr>hs_textBoxes = map deserializeTextBox (tf_textBoxes data),
     hs_rectangles = map deserializeRectangle (tf_rectangles data),
     hs_lines = map deserializeLine (tf_lines data),
     hs_nextTextBoxId = tf_nextTextBoxId data,
     hs_nextRectId = tf_nextRectId data,
     hs_nextLineId = tf_nextLineId data,
     hs_nextZIndex = tf_nextZIndex data\<rparr>"
  by (simp add: document_def loadFromFileData_def clearSelection_def Let_def)

text \<open>
  Claim C2. Loading the record that \<^verbatim>\<open>toFileData\<close> builds from a state \<open>s\<close>, into any
  state \<open>t\<close>, yields the document of \<open>s\<close>: the same text runs, rectangles and lines in
  every field, and the same four counters. The statement has no side condition, so it covers
  transparent and opaque colours, empty text runs and single-point lines.
\<close>

theorem load_save_roundtrip:
  "document (loadFromFileData (toFileData s) t) = document s"
  by (simp add: document_loadFromFileData toFileData_def comp_def
      deserialize_serializeTextBox deserialize_serializeRectangle deserialize_serializeLine)
    (simp add: document_def)

lemma deserializeColor_spec: "deserializeColor c = colourOfRecord c"
  by (cases c) (simp_all add: deserializeColor_def colourOfRecord_def fromValues_def)

lemma deserializeTextBox_spec: "deserializeTextBox b = textRunOfRecord b"
  by (simp add: deserializeTextBox_def textRunOfRecord_def deserializeColor_spec)

lemma deserializeRectangle_spec: "deserializeRectangle r = rectangleOfRecord r"
  by (simp add: deserializeRectangle_def rectangleOfRecord_def deserializeColor_spec)

lemma deserializeLine_spec: "deserializeLine l = lineOfRecord l"
  by (simp add: deserializeLine_def lineOfRecord_def deserializeColor_spec)

lemma mappable_Some: "mappable field = Some xs \<longleftrightarrow> field = Some (map Some xs)"
proof (cases field)
  case None
  then show ?thesis by (simp add: mappable_def)
next
  case (Some ys)
  have a: "map Some (map the ys) = ys" if "list_all (\<lambda>x. x \<noteq> None) ys"
    using that by (induction ys) auto
  have b: "list_all (\<lambda>x. x \<noteq> None) (map Some xs)"
    by (induction xs) auto
  show ?thesis
  proof
    assume "mappable field = Some xs"
    then have "list_all (\<lambda>x. x \<noteq> None) ys" "xs = map the ys"
      using Some by (auto simp add: mappable_def split: if_splits)
    then show "field = Some (map Some xs)" using Some a by simp
  next
    assume "field = Some (map Some xs)"
    then show "mappable field = Some xs"
      using b by (simp add: mappable_def comp_def)
  qed
qed

lemma asTigmaFile_Some:
  "asTigmaFile raw = Some data \<longleftrightarrow>
    raw_textBoxes raw = Some (map Some (tf_textBoxes data))
    \<and> raw_rectangles raw = Some (map Some (tf_rectangles data))
    \<and> raw_lines raw = Some (map Some (tf_lines data))
    \<and> tf_version data = raw_version raw
    \<and> tf_nextTextBoxId data = raw_nextTextBoxId raw
    \<and> tf_nextRectId data = raw_nextRectId raw
    \<and> tf_nextLineId data = raw_nextLineId raw
    \<and> tf_nextZIndex data = raw_nextZIndex raw"
proof
  assume a: "asTigmaFile raw = Some data"
  then obtain bs rs ls where m: "mappable (raw_textBoxes raw) = Some bs"
      "mappable (raw_rectangles raw) = Some rs" "mappable (raw_lines raw) = Some ls"
    by (auto simp add: asTigmaFile_def split: option.splits)
  with a have "data = \<lparr>tf_version = raw_version raw, tf_textBoxes = bs, tf_rectangles = rs,
               tf_lines = ls, tf_nextTextBoxId = raw_nextTextBoxId raw,
               tf_nextRectId = raw_nextRectId raw, tf_nextLineId = raw_nextLineId raw,
               tf_nextZIndex = raw_nextZIndex raw\<rparr>"
    by (simp add: asTigmaFile_def)
  then show "raw_textBoxes raw = Some (map Some (tf_textBoxes data))
    \<and> raw_rectangles raw = Some (map Some (tf_rectangles data))
    \<and> raw_lines raw = Some (map Some (tf_lines data))
    \<and> tf_version data = raw_version raw
    \<and> tf_nextTextBoxId data = raw_nextTextBoxId raw
    \<and> tf_nextRectId data = raw_nextRectId raw
    \<and> tf_nextLineId data = raw_nextLineId raw
    \<and> tf_nextZIndex data = raw_nextZIndex raw"
    using m by (simp add: mappable_Some)
next
  assume a: "raw_textBoxes raw = Some (map Some (tf_textBoxes data))
    \<and> raw_rectangles raw = Some (map Some (tf_rectangles data))
    \<and> raw_lines raw = Some (map Some (tf_lines data))
    \<and> tf_version data = raw_version raw
    \<and> tf_nextTextBoxId data = raw_nextTextBoxId raw
    \<and> tf_nextRectId data = raw_nextRectId raw
    \<and> tf_nextLineId data = raw_nextLineId raw
    \<and> tf_nextZIndex data = raw_nextZIndex raw"
  then have "mappable (raw_textBoxes raw) = Some (tf_textBoxes data)"
    "mappable (raw_rectangles raw) = Some (tf_rectangles data)"
    "mappable (raw_lines raw) = Some (tf_lines data)"
    by (simp_all add: mappable_Some)
  then have "asTigmaFile raw = Some \<lparr>tf_version = tf_version data,
      tf_textBoxes = tf_textBoxes data, tf_rectangles = tf_rectangles data,
      tf_lines = tf_lines data, tf_nextTextBoxId = tf_nextTextBoxId data,
      tf_nextRectId = tf_nextRectId data, tf_nextLineId = tf_nextLineId data,
      tf_nextZIndex = tf_nextZIndex data\<rparr>"
    using a by (simp add: asTigmaFile_def)
  then show "asTigmaFile raw = Some data" by simp
qed

lemma loadFile_success:
  assumes "raw_version raw = 1" "asTigmaFile raw = Some data"
  shows "loadFile path (Parsed raw) s =
    (True, (loadFromFileData data s)\<lparr>currentFilePath := Some path\<rparr>)"
  using assms by (simp add: loadFile_def)

lemma loadFile_True:
  assumes "fst (loadFile path content s)"
  shows "\<exists>raw data. content = Parsed raw \<and> raw_version raw = 1 \<and> asTigmaFile raw = Some data"
  using assms by (auto simp add: loadFile_def split: FileContent.splits if_splits option.splits)

text \<open>
  Claim C7. A parsed object whose version is not 1 makes \<^verbatim>\<open>loadFile\<close> return false and
  leave the whole state as it was. When the version is 1 and the three arrays hold the
  records \<open>bs\<close>, \<open>rs\<close> and \<open>ls\<close>, it returns true, and the document is then exactly the
  one the object stands for: the text runs, rectangles and lines of the records, field by
  field, and the object's four counters; both history stacks are empty. No other input makes
  \<^verbatim>\<open>loadFile\<close> return true.
\<close>

theorem loadFile_version:
  "(raw_version raw \<noteq> 1 \<longrightarrow> loadFile path (Parsed raw) s = (False, s))
   \<and> (raw_version raw = 1 \<and> raw_textBoxes raw = Some (map Some bs)
        \<and> raw_rectangles raw = Some (map Some rs) \<and> raw_lines raw = Some (map Some ls) \<longrightarrow>
        fst (loadFile path (Parsed raw) s)
        \<and> document (snd (loadFile path (Parsed raw) s)) =
            \<lparr>hs_textBoxes = map textRunOfRecord bs,
             hs_rectangles = map rectangleOfRecord rs,
             hs_lines = map lineOfRecord ls,
             hs_nextTextBoxId = raw_nextTextBoxId raw,
             hs_nextRectId = raw_nextRectId raw,
             hs_nextLineId = raw_nextLineId raw,
             hs_nextZIndex = raw_nextZIndex raw\<rparr>
        \<and> historyStack (snd (loadFile path (Parsed raw) s)) = []
        \<and> redoStack (snd (loadFile path (Parsed raw) s)) = [])
   \<and> (fst (loadFile path content s) \<longrightarrow>
        (\<exists>raw' bs' rs' ls'. content = Parsed raw' \<and> raw_version raw' = 1
          \<and> raw_textBoxes raw' = Some (map Some bs')
          \<and> raw_rectangles raw' = Some (map Some rs')
          \<and> raw_lines raw' = Some (map Some ls')))"
proof (intro conjI impI)
  show "loadFile path (Parsed raw) s = (False, s)" if "raw_version raw \<noteq> 1"
    using that by (simp add: loadFile_def)
next
  assume a: "raw_version raw = 1 \<and> raw_textBoxes raw = Some (map Some bs)
        \<and> raw_rectangles raw = Some (map Some rs) \<and> raw_lines raw = Some (map Some ls)"
  define data where "data = \<lparr>tf_version = raw_version raw, tf_textBoxes = bs,
      tf_rectangles = rs, tf_lines = ls, tf_nextTextBoxId = raw_nextTextBoxId raw,
      tf_nextRectId = raw_nextRectId raw, tf_nextLineId = raw_nextLineId raw,
      tf_nextZIndex = raw_nextZIndex raw\<rparr>"
  have "asTigmaFile raw = Some data"
    using a by (simp add: asTigmaFile_Some data_def)
  from loadFile_success [OF _ this, of path s] a
  have l: "loadFile path (Parsed raw) s =
      (True, (loadFromFileData data s)\<lparr>currentFilePath := Some path\<rparr>)"
    by simp
  show "fst (loadFile path (Parsed raw) s)" by (simp add: l)
  have "document ((loadFromFileData data s)\<lparr>currentFilePath := Some path\<rparr>)
      = document (loadFromFileData data s)"
    by (simp add: document_def)
  then show "document (snd (loadFile path (Parsed raw) s)) =
            \<lparr>hs_textBoxes = map textRunOfRecord bs,
             hs_rectangles = map rectangleOfRecord rs,
             hs_lines = map lineOfRecord ls,
             hs_nextTextBoxId = raw_nextTextBoxId raw,
             hs_nextRectId = raw_nextRectId raw,
             hs_nextLineId = raw_nextLineId raw,
             hs_nextZIndex = raw_nextZIndex raw\<rparr>"
    by (simp add: l document_loadFromFileData data_def deserializeTextBox_spec
        deserializeRectangle_spec deserializeLine_spec cong: map_cong)
  show "historyStack (snd (loadFile path (Parsed raw) s)) = []"
    by (simp add: l loadFromFileData_def Let_def)
  show "redoStack (snd (loadFile path (Parsed raw) s)) = []"
    by (simp add: l loadFromFileData_def Let_def)
next
  assume "fst (loadFile path content s)"
  from loadFile_True [OF this]
  obtain raw' data where r: "content = Parsed raw'" "raw_version raw' = 1"
      "asTigmaFile raw' = Some data"
    by blast
  from r(3) have "raw_textBoxes raw' = Some (map Some (tf_textBoxes data))"
    "raw_rectangles raw' = Some (map Some (tf_rectangles data))"
    "raw_lines raw' = Some (map Some (tf_lines data))"
    by (simp_all add: asTigmaFile_Some)
  with r(1,2) show "\<exists>raw' bs' rs' ls'. content = Parsed raw' \<and> raw_version raw' = 1
          \<and> raw_textBoxes raw' = Some (map Some bs')
          \<and> raw_rectangles raw' = Some (map Some rs')
          \<and> raw_lines raw' = Some (map Some ls')"
    by blast
qed

theorem loadFile_version_witness:
  "raw_version futureFile \<noteq> 1
   \<and> loadFile ''/tmp/a.tigma'' (Parsed futureFile) oneTextApp = (False, oneTextApp)
   \<and> raw_version sampleFile = 1
   \<and> fst (loadFile ''/tmp/a.tigma'' (Parsed sampleFile) oneTextApp)
   \<and> document (snd (loadFile ''/tmp/a.tigma'' (Parsed sampleFile) oneTextApp)) =
       \<lparr>hs_textBoxes =
          [\<lparr>tb_id = 3, tb_x = 7, tb_y = 2,
            tb_chars = [\<lparr>tc_char = ''h'', tc_bold = True,
                         tc_color = Some (fromInts 255 100 100 255)\<rparr>,
                        \<lparr>tc_char = ''i'', tc_bold = False, tc_color = None\<rparr>],
            tb_zIndex = 4, tb_strokeColor = Some (fromInts 255 255 255 255),
            tb_fillColor = None\<rparr>],
        hs_rectangles =
          [\<lparr>rc_id = 1, rc_x1 = 9, rc_y1 = 8, rc_x2 = 4, rc_y2 = 5, rc_bold = True,
            rc_zIndex = 2, rc_strokeColor = None,
            rc_fillColor = Some (fromInts 30 30 80 255)\<rparr>],
        hs_lines =
          [\<lparr>ln_id = 2, ln_x1 = 0, ln_y1 = 6, ln_x2 = 0, ln_y2 = 6, ln_bold = False,
            ln_zIndex = 1, ln_strokeColor = Some (fromInts 100 255 100 255),
            ln_fillColor = None\<rparr>],
        hs_nextTextBoxId = 4, hs_nextRectId = 2, hs_nextLineId = 3, hs_nextZIndex = 5\<rparr>
   \<and> historyStack oneTextApp \<noteq> []
   \<and> historyStack (snd (loadFile ''/tmp/a.tigma'' (Parsed sampleFile) oneTextApp)) = []
   \<and> redoStack (snd (loadFile ''/tmp/a.tigma'' (Parsed sampleFile) oneTextApp)) = []"
proof -
  let ?bs = "map the (the (raw_textBoxes sampleFile))"
  let ?rs = "map the (the (raw_rectangles sampleFile))"
  let ?ls = "map the (the (raw_lines sampleFile))"
  have v: "raw_version futureFile \<noteq> 1" "raw_version sampleFile = 1"
    by (simp_all add: futureFile_def sampleFile_def)
  have h: "raw_textBoxes sampleFile = Some (map Some ?bs)"
    "raw_rectangles sampleFile = Some (map Some ?rs)"
    "raw_lines sampleFile = Some (map Some ?ls)"
    by (simp_all add: sampleFile_def)
  have n: "historyStack oneTextApp \<noteq> []" by (simp add: oneTextApp_def)
  have u: "loadFile ''/tmp/a.tigma'' (Parsed futureFile) oneTextApp = (False, oneTextApp)"
    using loadFile_version [where raw = futureFile and path = "''/tmp/a.tigma''"
        and s = oneTextApp] v(1) by blast
  from loadFile_version [where raw = sampleFile and bs = ?bs and rs = ?rs and ls = ?ls
      and path = "''/tmp/a.tigma''" and s = oneTextApp] v(2) h
  have l: "fst (loadFile ''/tmp/a.tigma'' (Parsed sampleFile) oneTextApp)"
    "document (snd (loadFile ''/tmp/a.tigma'' (Parsed sampleFile) oneTextApp)) =
       \<lparr>hs_textBoxes = map textRunOfRecord ?bs,
        hs_rectangles = map rectangleOfRecord ?rs,
        hs_lines = map lineOfRecord ?ls,
        hs_nextTextBoxId = raw_nextTextBoxId sampleFile,
        hs_nextRectId = raw_nextRectId sampleFile,
        hs_nextLineId = raw_nextLineId sampleFile,
        hs_nextZIndex = raw_nextZIndex sampleFile\<rparr>"
    "historyStack (snd (loadFile ''/tmp/a.tigma'' (Parsed sampleFile) oneTextApp)) = []"
    "redoStack (snd (loadFile ''/tmp/a.tigma'' (Parsed sampleFile) oneTextApp)) = []"
    by blast+
  have d: "\<lparr>hs_textBoxes = map textRunOfRecord ?bs,
        hs_rectangles = map rectangleOfRecord ?rs,
        hs_lines = map lineOfRecord ?ls,
        hs_nextTextBoxId = raw_nextTextBoxId sampleFile,
        hs_nextRectId = raw_nextRectId sampleFile,
        hs_nextLineId = raw_nextLineId sampleFile,
        hs_nextZIndex = raw_nextZIndex sampleFile\<rparr> =
       \<lparr>hs_textBoxes =
          [\<lparr>tb_id = 3, tb_x = 7, tb_y = 2,
            tb_chars = [\<lparr>tc_char = ''h'', tc_bold = True,
                         tc_color = Some (fromInts 255 100 100 255)\<rparr>,
                        \<lparr>tc_char = ''i'', tc_bold = False, tc_color = None\<rparr>],
            tb_zIndex = 4, tb_strokeColor = Some (fromInts 255 255 255 255),
            tb_fillColor = None\<rparr>],
        hs_rectangles =
          [\<lparr>rc_id = 1, rc_x1 = 9, rc_y1 = 8, rc_x2 = 4, rc_y2 = 5, rc_bold = True,
            rc_zIndex = 2, rc_strokeColor = None,
            rc_fillColor = Some (fromInts 30 30 80 255)\<rparr>],
        hs_lines =
          [\<lparr>ln_id = 2, ln_x1 = 0, ln_y1 = 6, ln_x2 = 0, ln_y2 = 6, ln_bold = False,
            ln_zIndex = 1, ln_strokeColor = Some (fromInts 100 255 100 255),
            ln_fillColor = None\<rparr>],
        hs_nextTextBoxId = 4, hs_nextRectId = 2, hs_nextLineId = 3, hs_nextZIndex = 5\<rparr>"
    by (simp add: sampleFile_def textRunOfRecord_def rectangleOfRecord_def lineOfRecord_def
        colourOfRecord_def fromInts_def)
  show ?thesis
    using v u l(1,3,4) n l(2) [unfolded d] by blast
qed

text \<open>
  The \<^verbatim>\<open>catch\<close> path: a version-1 object without its \<^verbatim>\<open>lines\<close> array makes
  \<^verbatim>\<open>loadFile\<close> return false after the text runs and the rectangles of the document were
  replaced; the lines, the counters and the history stacks are as before.
\<close>

lemma loadFile_truncated:
  "fst (loadFile ''/tmp/a.tigma'' (Parsed truncatedFile) oneTextApp) = False
   \<and> map tb_id (textBoxes (snd (loadFile ''/tmp/a.tigma'' (Parsed truncatedFile) oneTextApp))) = [3]
   \<and> map rc_id (rectangles (snd (loadFile ''/tmp/a.tigma'' (Parsed truncatedFile) oneTextApp))) = [1]
   \<and> nextTextBoxId (snd (loadFile ''/tmp/a.tigma'' (Parsed truncatedFile) oneTextApp)) = 2
   \<and> length (historyStack (snd (loadFile ''/tmp/a.tigma'' (Parsed truncatedFile) oneTextApp))) = 1"
  by (simp add: loadFile_def truncatedFile_def sampleFile_def asTigmaFile_def mappable_def
      loadFromFileDataThrows_def deserializeTextBox_def deserializeRectangle_def
      oneTextApp_def initialApp_def Let_def)

lemma serializedColorOk_serializeColor: "serializedColorOk (serializeColor c)"
  using channelValue_range
  by (cases c) (simp_all add: serializedColorOk_def serializeColor_def channelsInRange_def)

lemma serializeColor_None: "serializeColor c = None \<longleftrightarrow> c = None"
  by (cases c) (simp_all add: serializeColor_def)

text \<open>
  Claim C9. In the record that \<^verbatim>\<open>toFileData\<close> builds from any state, every colour field
  of every entity (the stroke and fill of each text run, the colour of each of its
  characters, the stroke and fill of each rectangle and of each line) is either \<^verbatim>\<open>null\<close> or
  a record whose four channel values lie in [0,255]. A field is \<^verbatim>\<open>null\<close> exactly when the
  entity's colour is the transparent one.
\<close>

theorem serialized_colors_in_range:
  "(\<forall>b\<in>set (tf_textBoxes (toFileData s)).
        serializedColorOk (stb_strokeColor b) \<and> serializedColorOk (stb_fillColor b)
        \<and> (\<forall>c\<in>set (stb_chars b). serializedColorOk (stc_color c)))
   \<and> (\<forall>r\<in>set (tf_rectangles (toFileData s)).
        serializedColorOk (src_strokeColor r) \<and> serializedColorOk (src_fillColor r))
   \<and> (\<forall>l\<in>set (tf_lines (toFileData s)).
        serializedColorOk (sln_strokeColor l) \<and> serializedColorOk (sln_fillColor l))
   \<and> map (\<lambda>b. (stb_strokeColor b = None, stb_fillColor b = None,
                 map (\<lambda>c. stc_color c = None) (stb_chars b))) (tf_textBoxes (toFileData s))
       = map (\<lambda>b. (tb_strokeColor b = None, tb_fillColor b = None,
                   map (\<lambda>c. tc_color c = None) (tb_chars b))) (textBoxes s)
   \<and> map (\<lambda>r. (src_strokeColor r = None, src_fillColor r = None)) (tf_rectangles (toFileData s))
       = map (\<lambda>r. (rc_strokeColor r = None, rc_fillColor r = None)) (rectangles s)
   \<and> map (\<lambda>l. (sln_strokeColor l = None, sln_fillColor l = None)) (tf_lines (toFileData s))
       = map (\<lambda>l. (ln_strokeColor l = None, ln_fillColor l = None)) (lines s)"
proof (intro conjI)
  show "\<forall>b\<in>set (tf_textBoxes (toFileData s)).
        serializedColorOk (stb_strokeColor b) \<and> serializedColorOk (stb_fillColor b)
        \<and> (\<forall>c\<in>set (stb_chars b). serializedColorOk (stc_color c))"
    by (auto simp add: toFileData_def serializeTextBox_def serializedColorOk_serializeColor)
  show "\<forall>r\<in>set (tf_rectangles (toFileData s)).
        serializedColorOk (src_strokeColor r) \<and> serializedColorOk (src_fillColor r)"
    by (auto simp add: toFileData_def serializeRectangle_def serializedColorOk_serializeColor)
  show "\<forall>l\<in>set (tf_lines (toFileData s)).
        serializedColorOk (sln_strokeColor l) \<and> serializedColorOk (sln_fillColor l)"
    by (auto simp add: toFileData_def serializeLine_def serializedColorOk_serializeColor)
  show "map (\<lambda>b. (stb_strokeColor b = None, stb_fillColor b = None,
                 map (\<lambda>c. stc_color c = None) (stb_chars b))) (tf_textBoxes (toFileData s))
       = map (\<lambda>b. (tb_strokeColor b = None, tb_fillColor b = None,
                   map (\<lambda>c. tc_color c = None) (tb_chars b))) (textBoxes s)"
    by (simp add: toFileData_def serializeTextBox_def serializeColor_None comp_def)
  show "map (\<lambda>r. (src_strokeColor r = None, src_fillColor r = None)) (tf_rectangles (toFileData s))
       = map (\<lambda>r. (rc_strokeColor r = None, rc_fillColor r = None)) (rectangles s)"
    by (simp add: toFileData_def serializeRectangle_def serializeColor_None comp_def)
  show "map (\<lambda>l. (sln_strokeColor l = None, sln_fillColor l = None)) (tf_lines (toFileData s))
       = map (\<lambda>l. (ln_strokeColor l = None, ln_fillColor l = None)) (lines s)"
    by (simp add: toFileData_def serializeLine_def serializeColor_None comp_def)
qed

theorem serialized_colors_in_range_witness:
  "tf_rectangles (toFileData paletteApp) \<noteq> []
   \<and> src_strokeColor (hd (tf_rectangles (toFileData paletteApp))) \<noteq> None
   \<and> serializedColorOk (src_strokeColor (hd (tf_rectangles (toFileData paletteApp))))
   \<and> serializedColorOk (src_fillColor (hd (tf_rectangles (toFileData paletteApp))))
   \<and> map (\<lambda>l. (sln_strokeColor l = None, sln_fillColor l = None))
        (tf_lines (toFileData paletteApp)) = [(False, True)]"
proof -
  have n: "tf_rectangles (toFileData paletteApp) \<noteq> []"
    by (simp add: toFileData_def paletteApp_def)
  then have m: "hd (tf_rectangles (toFileData paletteApp)) \<in> set (tf_rectangles (toFileData paletteApp))"
    by (rule hd_in_set)
  note t = serialized_colors_in_range [of paletteApp]
  from t m have ok:
    "serializedColorOk (src_strokeColor (hd (tf_rectangles (toFileData paletteApp))))"
    "serializedColorOk (src_fillColor (hd (tf_rectangles (toFileData paletteApp))))"
    by blast+
  from t have "map (\<lambda>r. (src_strokeColor r = None, src_fillColor r = None))
        (tf_rectangles (toFileData paletteApp))
      = map (\<lambda>r. (rc_strokeColor r = None, rc_fillColor r = None)) (rectangles paletteApp)"
    by blast
  then have "map (\<lambda>r. (src_strokeColor r = None, src_fillColor r = None))
        (tf_rectangles (toFileData paletteApp)) = [(False, False)]"
    by (simp add: paletteApp_def)
  then have s: "src_strokeColor (hd (tf_rectangles (toFileData paletteApp))) \<noteq> None"
    using n by (cases "tf_rectangles (toFileData paletteApp)") auto
  from t have "map (\<lambda>l. (sln_strokeColor l = None, sln_fillColor l = None))
        (tf_lines (toFileData paletteApp))
      = map (\<lambda>l. (ln_strokeColor l = None, ln_fillColor l = None)) (lines paletteApp)"
    by blast
  then have l: "map (\<lambda>l. (sln_strokeColor l = None, sln_fillColor l = None))
        (tf_lines (toFileData paletteApp)) = [(False, True)]"
    by (simp add: paletteApp_def)
  show ?thesis using n s ok l by blast
qed

section \<open>Properties of moving, creating and resizing\<close>

lemma find_updateFirst:
  "find p xs = Some x \<Longrightarrow> p (f x) \<Longrightarrow> find p (updateFirst p f xs) = Some (f x)"
  by (induction xs) (auto split: if_splits)

lemma rectangles_clearSelection: "rectangles (clearSelection s) = rectangles s"
  by (simp add: clearSelection_def)

lemma rectangles_commitActiveTextBox: "rectangles (commitActiveTextBox s) = rectangles s"
  by (simp add: commitActiveTextBox_def Let_def split: option.splits)

lemma rectangles_setTool: "rectangles (setTool tool s) = rectangles s"
  by (simp add: setTool_def Let_def rectangles_clearSelection rectangles_commitActiveTextBox)

lemma rectangles_selectRect: "rectangles (selectRect i add s) = rectangles s"
  by (simp add: selectRect_def Let_def rectangles_clearSelection)

lemma saveSnapshot_fields:
  "rectangles (saveSnapshot s) = rectangles s"
  "nextRectId (saveSnapshot s) = nextRectId s"
  "nextZIndex (saveSnapshot s) = nextZIndex s"
  "boldMode (saveSnapshot s) = boldMode s"
  "currentStrokeColor (saveSnapshot s) = currentStrokeColor s"
  "currentFillColor (saveSnapshot s) = currentFillColor s"
  by (simp_all add: saveSnapshot_def Let_def)

lemma rectangles_commitRectangle:
  "rectangles (commitRectangle s) =
    (if isDrawingRect s \<and> (drawStartX s \<noteq> drawCursorX s \<or> drawStartY s \<noteq> drawCursorY s)
     then rectangles s @
       [\<lparr>rc_id = nextRectId s,
         rc_x1 = min (drawStartX s) (drawCursorX s), rc_y1 = min (drawStartY s) (drawCursorY s),
         rc_x2 = max (drawStartX s) (drawCursorX s), rc_y2 = max (drawStartY s) (drawCursorY s),
         rc_bold = boldMode s, rc_zIndex = nextZIndex s,
         rc_strokeColor = currentStrokeColor s, rc_fillColor = currentFillColor s\<rparr>]
     else rectangles s)"
proof -
  have m: "(max (drawStartX s) (drawCursorX s) > min (drawStartX s) (drawCursorX s)
      \<or> max (drawStartY s) (drawCursorY s) > min (drawStartY s) (drawCursorY s))
    = (drawStartX s \<noteq> drawCursorX s \<or> drawStartY s \<noteq> drawCursorY s)"
    by auto
  show ?thesis
    unfolding commitRectangle_def Let_def m
    by (simp add: rectangles_setTool rectangles_selectRect saveSnapshot_fields)
qed

text \<open>The clamped move of one text run keeps the run, over its effective width, inside a
  canvas that is wide enough for it.\<close>

lemma moveTextBox_in_canvas:
  assumes f: "find (\<lambda>b. tb_id b = i) (textBoxes s) = Some box"
    and w: "max 1 (getTextLength box) \<le> gridWidth s" and h: "1 \<le> gridHeight s"
  shows "\<exists>b. find (\<lambda>b. tb_id b = i) (textBoxes (moveTextBox i newX newY s)) = Some b
    \<and> 0 \<le> tb_x b \<and> tb_x b + max 1 (getTextLength b) \<le> gridWidth s
    \<and> 0 \<le> tb_y b \<and> tb_y b < gridHeight s"
proof -
  define nx where "nx = max 0 (min (gridWidth s - max 1 (getTextLength box)) newX)"
  define ny where "ny = max 0 (min (gridHeight s - 1) newY)"
  have i: "tb_id box = i" using f by (auto simp add: find_Some_iff)
  have m: "textBoxes (moveTextBox i newX newY s)
      = updateFirst (\<lambda>b. tb_id b = i) (\<lambda>b. b\<lparr>tb_x := nx, tb_y := ny\<rparr>) (textBoxes s)"
    by (simp add: moveTextBox_def f Let_def nx_def ny_def)
  have "find (\<lambda>b. tb_id b = i) (textBoxes (moveTextBox i newX newY s))
      = Some (box\<lparr>tb_x := nx, tb_y := ny\<rparr>)"
    unfolding m using find_updateFirst [OF f, of "\<lambda>b. b\<lparr>tb_x := nx, tb_y := ny\<rparr>"] i by simp
  moreover have "0 \<le> nx" "nx + max 1 (getTextLength box) \<le> gridWidth s" "0 \<le> ny" "ny < gridHeight s"
    using w h by (auto simp add: nx_def ny_def)
  ultimately show ?thesis by (simp add: getTextLength_def)
qed

text \<open>
  Claim C4 fails on the code. The drag branch of \<^verbatim>\<open>handleMouse\<close> calls
  \<^verbatim>\<open>moveSelection\<close>, which adds the delta to the coordinates of every selected entity and
  clamps nothing. Dragging the text run ``abc'' of \<open>textDragApp\<close>, grabbed at cell (2,0),
  one cell to the left puts its anchor at column \<open>-1\<close>, outside the 80 by 24 canvas. The
  clamped move of one text run, \<^verbatim>\<open>moveTextBox\<close>, asked for the same position, keeps the
  run at column 0; no caller uses it.
\<close>

theorem moveSelection_leaves_canvas:
  "gridWidth textDragApp = 80 \<and> gridHeight textDragApp = 24
   \<and> map (\<lambda>b. (tb_x b, tb_y b)) (textBoxes (handleMouseDrag 1 0 textDragApp)) = [(- 1, 0)]
   \<and> map (\<lambda>b. (tb_x b, tb_y b)) (textBoxes (moveSelection (- 1) 0 textDragApp)) = [(- 1, 0)]
   \<and> map (\<lambda>b. (tb_x b, tb_y b)) (textBoxes (moveTextBox 1 (- 1) 0 textDragApp)) = [(0, 0)]"
  by (simp add: textDragApp_def initialApp_def handleMouseDrag_def moveSelection_def
      moveTextBox_def getTextLength_def Let_def)

theorem moveSelection_leaves_canvas_witness:
  "tb_x (hd (textBoxes (handleMouseDrag 1 0 textDragApp))) < 0
   \<and> tb_x (hd (textBoxes (moveTextBox 1 (- 1) 0 textDragApp))) = 0"
proof -
  have "map (\<lambda>b. (tb_x b, tb_y b)) (textBoxes (handleMouseDrag 1 0 textDragApp)) = [(- 1, 0)]"
    "map (\<lambda>b. (tb_x b, tb_y b)) (textBoxes (moveTextBox 1 (- 1) 0 textDragApp)) = [(0, 0)]"
    using moveSelection_leaves_canvas by blast+
  then show ?thesis
    by (auto simp add: map_eq_Cons_conv)
qed

text \<open>
  Claim C8, as stated, fails: \<^verbatim>\<open>commitRectangle\<close> reorders the corners. The draw gesture
  of \<open>dragUpLeftApp\<close> runs from the anchor (5,5) to the release cell (2,2), and the rectangle
  stored is (2,2)-(5,5), the same as for the opposite drag.
\<close>

theorem commitRectangle_reorders_corners:
  "drawStartX dragUpLeftApp = 5 \<and> drawStartY dragUpLeftApp = 5
   \<and> drawCursorX dragUpLeftApp = 2 \<and> drawCursorY dragUpLeftApp = 2
   \<and> rectangles (commitRectangle dragUpLeftApp) =
       [\<lparr>rc_id = 1, rc_x1 = 2, rc_y1 = 2, rc_x2 = 5, rc_y2 = 5, rc_bold = False,
         rc_zIndex = 1, rc_strokeColor = Some (fromInts 255 255 255 255),
         rc_fillColor = None\<rparr>]"
  by (simp add: rectangles_commitRectangle) (simp add: dragUpLeftApp_def initialApp_def)

lemma updateFirst_split:
  "find p xs = Some x \<Longrightarrow>
   \<exists>pre post. xs = pre @ x # post \<and> (\<forall>q\<in>set pre. \<not> p q)
     \<and> updateFirst p f xs = pre @ f x # post"
proof (induction xs)
  case Nil
  then show ?case by simp
next
  case (Cons y ys)
  show ?case
  proof (cases "p y")
    case True
    then have "y = x" using Cons.prems by simp
    then have "y # ys = [] @ x # ys \<and> (\<forall>q\<in>set []. \<not> p q)
        \<and> updateFirst p f (y # ys) = [] @ f x # ys"
      using True by simp
    then show ?thesis by blast
  next
    case False
    then have "find p ys = Some x" using Cons.prems by simp
    from Cons.IH [OF this]
    obtain pre post where h: "ys = pre @ x # post" "\<forall>q\<in>set pre. \<not> p q"
        "updateFirst p f ys = pre @ f x # post"
      by blast
    have "y # ys = (y # pre) @ x # post \<and> (\<forall>q\<in>set (y # pre). \<not> p q)
        \<and> updateFirst p f (y # ys) = (y # pre) @ f x # post"
      using h False by simp
    then show ?thesis by blast
  qed
qed

lemma resizeRect_handle:
  "(case h of
      NW \<Rightarrow> (\<lambda>r. r\<lparr>rc_x1 := cx, rc_y1 := cy\<rparr>)
    | NE \<Rightarrow> (\<lambda>r. r\<lparr>rc_x2 := cx, rc_y1 := cy\<rparr>)
    | SW \<Rightarrow> (\<lambda>r. r\<lparr>rc_x1 := cx, rc_y2 := cy\<rparr>)
    | SE \<Rightarrow> (\<lambda>r. r\<lparr>rc_x2 := cx, rc_y2 := cy\<rparr>)
    | N \<Rightarrow> (\<lambda>r. r\<lparr>rc_y1 := cy\<rparr>)
    | S \<Rightarrow> (\<lambda>r. r\<lparr>rc_y2 := cy\<rparr>)
    | W \<Rightarrow> (\<lambda>r. r\<lparr>rc_x1 := cx\<rparr>)
    | E \<Rightarrow> (\<lambda>r. r\<lparr>rc_x2 := cx\<rparr>)) r = resizedCorners h cx cy r"
  by (cases h) (simp_all add: resizedCorners_def)

lemma clamp_in_canvas:
  fixes w v :: int
  assumes "1 \<le> w"
  shows "0 \<le> max 0 (min (w - 1) v)" "max 0 (min (w - 1) v) < w"
  using assms by auto

text \<open>
  Claim C8, amended. A rectangle is stored normalised when it is created: a draw gesture
  with a non-zero extent appends the rectangle whose first corner is the minimum and whose
  second corner is the maximum of anchor and release cell in each axis, so \<open>x1 \<le> x2\<close> and
  \<open>y1 \<le> y2\<close> whatever the direction of the drag; any other call appends nothing. A resize
  stores the corners unnormalised: \<^verbatim>\<open>resizeRect\<close> clamps the pointer cell to the canvas
  (column into \<open>0 .. gridWidth - 1\<close>, row into \<open>0 .. gridHeight - 1\<close>) and assigns it to
  the coordinates that the active handle carries, for each of the eight handles, in the
  first rectangle with the given id. The other coordinates and fields of that rectangle,
  every other rectangle and the rest of the state stay as they were, and nothing is
  reordered: when a western handle's clamped column lies beyond the second column the
  stored rectangle has \<open>x1 > x2\<close>, and when a northern handle's clamped row lies beyond the
  second row it has \<open>y1 > y2\<close>. Without such a rectangle or without an active handle nothing
  changes.
\<close>

theorem rectangle_corners_stored:
  "(isDrawingRect s \<and> (drawStartX s \<noteq> drawCursorX s \<or> drawStartY s \<noteq> drawCursorY s) \<longrightarrow>
      rectangles (commitRectangle s) = rectangles s @
        [\<lparr>rc_id = nextRectId s,
          rc_x1 = min (drawStartX s) (drawCursorX s), rc_y1 = min (drawStartY s) (drawCursorY s),
          rc_x2 = max (drawStartX s) (drawCursorX s), rc_y2 = max (drawStartY s) (drawCursorY s),
          rc_bold = boldMode s, rc_zIndex = nextZIndex s,
          rc_strokeColor = currentStrokeColor s, rc_fillColor = currentFillColor s\<rparr>]
      \<and> rc_x1 (last (rectangles (commitRectangle s))) \<le> rc_x2 (last (rectangles (commitRectangle s)))
      \<and> rc_y1 (last (rectangles (commitRectangle s))) \<le> rc_y2 (last (rectangles (commitRectangle s))))
   \<and> (\<not> (isDrawingRect s \<and> (drawStartX s \<noteq> drawCursorX s \<or> drawStartY s \<noteq> drawCursorY s)) \<longrightarrow>
      rectangles (commitRectangle s) = rectangles s)
   \<and> (find (\<lambda>r. rc_id r = i) (rectangles s) = Some r \<and> resizeHandle s = Some h \<longrightarrow>
      (\<exists>pre post. rectangles s = pre @ r # post \<and> (\<forall>q\<in>set pre. rc_id q \<noteq> i)
        \<and> resizeRect i mx my s =
            s\<lparr>rectangles := pre @ resizedCorners h (max 0 (min (gridWidth s - 1) mx))
                                   (max 0 (min (gridHeight s - 1) my)) r # post\<rparr>))
   \<and> (find (\<lambda>r. rc_id r = i) (rectangles s) = Some r \<and> resizeHandle s = Some h
        \<and> h \<in> {NW, W, SW} \<and> rc_x2 r < max 0 (min (gridWidth s - 1) mx) \<longrightarrow>
      (\<exists>r'. find (\<lambda>r. rc_id r = i) (rectangles (resizeRect i mx my s)) = Some r'
         \<and> rc_x1 r' > rc_x2 r'))
   \<and> (find (\<lambda>r. rc_id r = i) (rectangles s) = Some r \<and> resizeHandle s = Some h
        \<and> h \<in> {NW, N, NE} \<and> rc_y2 r < max 0 (min (gridHeight s - 1) my) \<longrightarrow>
      (\<exists>r'. find (\<lambda>r. rc_id r = i) (rectangles (resizeRect i mx my s)) = Some r'
         \<and> rc_y1 r' > rc_y2 r'))
   \<and> (1 \<le> gridWidth s \<and> 1 \<le> gridHeight s \<longrightarrow>
        0 \<le> max 0 (min (gridWidth s - 1) mx) \<and> max 0 (min (gridWidth s - 1) mx) < gridWidth s
        \<and> 0 \<le> max 0 (min (gridHeight s - 1) my) \<and> max 0 (min (gridHeight s - 1) my) < gridHeight s)
   \<and> (find (\<lambda>r. rc_id r = i) (rectangles s) = None \<or> resizeHandle s = None \<longrightarrow>
        resizeRect i mx my s = s)"
proof (intro conjI impI)
  assume a: "isDrawingRect s \<and> (drawStartX s \<noteq> drawCursorX s \<or> drawStartY s \<noteq> drawCursorY s)"
  then show e: "rectangles (commitRectangle s) = rectangles s @
        [\<lparr>rc_id = nextRectId s,
          rc_x1 = min (drawStartX s) (drawCursorX s), rc_y1 = min (drawStartY s) (drawCursorY s),
          rc_x2 = max (drawStartX s) (drawCursorX s), rc_y2 = max (drawStartY s) (drawCursorY s),
          rc_bold = boldMode s, rc_zIndex = nextZIndex s,
          rc_strokeColor = currentStrokeColor s, rc_fillColor = currentFillColor s\<rparr>]"
    by (simp add: rectangles_commitRectangle)
  show "rc_x1 (last (rectangles (commitRectangle s))) \<le> rc_x2 (last (rectangles (commitRectangle s)))"
    by (simp add: e)
  show "rc_y1 (last (rectangles (commitRectangle s))) \<le> rc_y2 (last (rectangles (commitRectangle s)))"
    by (simp add: e)
next
  assume "\<not> (isDrawingRect s \<and> (drawStartX s \<noteq> drawCursorX s \<or> drawStartY s \<noteq> drawCursorY s))"
  then show "rectangles (commitRectangle s) = rectangles s"
    by (simp add: rectangles_commitRectangle)
next
  assume a: "find (\<lambda>r. rc_id r = i) (rectangles s) = Some r \<and> resizeHandle s = Some h"
  let ?cx = "max 0 (min (gridWidth s - 1) mx)"
  let ?cy = "max 0 (min (gridHeight s - 1) my)"
  have u: "resizeRect i mx my s =
      s\<lparr>rectangles := updateFirst (\<lambda>r. rc_id r = i) (resizedCorners h ?cx ?cy) (rectangles s)\<rparr>"
    using a by (simp add: resizeRect_def Let_def resizeRect_handle [abs_def])
  from a have "find (\<lambda>r. rc_id r = i) (rectangles s) = Some r" by simp
  from updateFirst_split [OF this, of "resizedCorners h ?cx ?cy"]
  obtain pre post where h: "rectangles s = pre @ r # post" "\<forall>q\<in>set pre. rc_id q \<noteq> i"
      "updateFirst (\<lambda>r. rc_id r = i) (resizedCorners h ?cx ?cy) (rectangles s)
        = pre @ resizedCorners h ?cx ?cy r # post"
    by blast
  then show "\<exists>pre post. rectangles s = pre @ r # post \<and> (\<forall>q\<in>set pre. rc_id q \<noteq> i)
        \<and> resizeRect i mx my s = s\<lparr>rectangles := pre @ resizedCorners h ?cx ?cy r # post\<rparr>"
    using u by auto
next
  assume a: "find (\<lambda>r. rc_id r = i) (rectangles s) = Some r \<and> resizeHandle s = Some h
        \<and> h \<in> {NW, W, SW} \<and> rc_x2 r < max 0 (min (gridWidth s - 1) mx)"
  let ?cx = "max 0 (min (gridWidth s - 1) mx)"
  let ?cy = "max 0 (min (gridHeight s - 1) my)"
  have u: "rectangles (resizeRect i mx my s) =
      updateFirst (\<lambda>r. rc_id r = i) (resizedCorners h ?cx ?cy) (rectangles s)"
    using a by (simp add: resizeRect_def Let_def resizeRect_handle [abs_def])
  from a have f: "find (\<lambda>r. rc_id r = i) (rectangles s) = Some r" by simp
  then have i: "rc_id r = i" by (auto simp add: find_Some_iff)
  have "rc_id (resizedCorners h ?cx ?cy r) = i" using i by (simp add: resizedCorners_def)
  from find_updateFirst [OF f, of "resizedCorners h ?cx ?cy", OF this]
  have "find (\<lambda>r. rc_id r = i) (rectangles (resizeRect i mx my s))
      = Some (resizedCorners h ?cx ?cy r)"
    by (simp add: u)
  moreover have "rc_x1 (resizedCorners h ?cx ?cy r) > rc_x2 (resizedCorners h ?cx ?cy r)"
    using a by (auto simp add: resizedCorners_def)
  ultimately show "\<exists>r'. find (\<lambda>r. rc_id r = i) (rectangles (resizeRect i mx my s)) = Some r'
         \<and> rc_x1 r' > rc_x2 r'"
    by blast
next
  assume a: "find (\<lambda>r. rc_id r = i) (rectangles s) = Some r \<and> resizeHandle s = Some h
        \<and> h \<in> {NW, N, NE} \<and> rc_y2 r < max 0 (min (gridHeight s - 1) my)"
  let ?cx = "max 0 (min (gridWidth s - 1) mx)"
  let ?cy = "max 0 (min (gridHeight s - 1) my)"
  have u: "rectangles (resizeRect i mx my s) =
      updateFirst (\<lambda>r. rc_id r = i) (resizedCorners h ?cx ?cy) (rectangles s)"
    using a by (simp add: resizeRect_def Let_def resizeRect_handle [abs_def])
  from a have f: "find (\<lambda>r. rc_id r = i) (rectangles s) = Some r" by simp
  then have i: "rc_id r = i" by (auto simp add: find_Some_iff)
  have "rc_id (resizedCorners h ?cx ?cy r) = i" using i by (simp add: resizedCorners_def)
  from find_updateFirst [OF f, of "resizedCorners h ?cx ?cy", OF this]
  have "find (\<lambda>r. rc_id r = i) (rectangles (resizeRect i mx my s))
      = Some (resizedCorners h ?cx ?cy r)"
    by (simp add: u)
  moreover have "rc_y1 (resizedCorners h ?cx ?cy r) > rc_y2 (resizedCorners h ?cx ?cy r)"
    using a by (auto simp add: resizedCorners_def)
  ultimately show "\<exists>r'. find (\<lambda>r. rc_id r = i) (rectangles (resizeRect i mx my s)) = Some r'
         \<and> rc_y1 r' > rc_y2 r'"
    by blast
next
  assume a: "1 \<le> gridWidth s \<and> 1 \<le> gridHeight s"
  show "0 \<le> max 0 (min (gridWidth s - 1) mx)" by simp
  show "max 0 (min (gridWidth s - 1) mx) < gridWidth s" using a by auto
  show "0 \<le> max 0 (min (gridHeight s - 1) my)" by simp
  show "max 0 (min (gridHeight s - 1) my) < gridHeight s" using a by auto
next
  assume "find (\<lambda>r. rc_id r = i) (rectangles s) = None \<or> resizeHandle s = None"
  then show "resizeRect i mx my s = s"
    by (auto simp add: resizeRect_def split: option.splits)
qed

theorem rectangle_corners_stored_witness:
  "isDrawingRect dragUpLeftApp
   \<and> drawStartX dragUpLeftApp \<noteq> drawCursorX dragUpLeftApp
   \<and> rc_x1 (last (rectangles (commitRectangle dragUpLeftApp)))
       \<le> rc_x2 (last (rectangles (commitRectangle dragUpLeftApp)))
   \<and> \<not> isDrawingRect (initialApp 80 24)
   \<and> rectangles (commitRectangle (initialApp 80 24)) = rectangles (initialApp 80 24)
   \<and> find (\<lambda>r. rc_id r = 1) (rectangles resizingApp) = Some (hd (rectangles resizingApp))
   \<and> resizeHandle resizingApp = Some NW
   \<and> resizeRect 1 7 6 resizingApp =
        resizingApp\<lparr>rectangles := [(hd (rectangles resizingApp))\<lparr>rc_x1 := 7, rc_y1 := 6\<rparr>]\<rparr>
   \<and> resizeRect 1 200 (- 3) resizingApp =
        resizingApp\<lparr>rectangles := [(hd (rectangles resizingApp))\<lparr>rc_x1 := 79, rc_y1 := 0\<rparr>]\<rparr>
   \<and> rc_x2 (hd (rectangles resizingApp)) = 5 \<and> rc_y2 (hd (rectangles resizingApp)) = 5
   \<and> resizeRect 2 7 6 resizingApp = resizingApp"
proof -
  have d: "isDrawingRect dragUpLeftApp"
    "drawStartX dragUpLeftApp \<noteq> drawCursorX dragUpLeftApp"
    by (simp_all add: dragUpLeftApp_def initialApp_def)
  have n: "\<not> isDrawingRect (initialApp 80 24)"
    by (simp add: initialApp_def)
  have r: "find (\<lambda>r. rc_id r = 1) (rectangles resizingApp) = Some (hd (rectangles resizingApp))"
    "resizeHandle resizingApp = Some NW"
    "rc_x2 (hd (rectangles resizingApp)) = 5" "rc_y2 (hd (rectangles resizingApp)) = 5"
    "find (\<lambda>r. rc_id r = 2) (rectangles resizingApp) = None"
    by (simp_all add: resizingApp_def initialApp_def)
  have one: "rectangles resizingApp = pre @ hd (rectangles resizingApp) # post
      \<Longrightarrow> pre = [] \<and> post = []" for pre post
    by (cases pre) (simp_all add: resizingApp_def initialApp_def)
  have c: "max 0 (min (gridWidth resizingApp - 1) 7) = 7"
    "max 0 (min (gridHeight resizingApp - 1) 6) = 6"
    "max 0 (min (gridWidth resizingApp - 1) 200) = 79"
    "max 0 (min (gridHeight resizingApp - 1) (- 3)) = 0"
    by (simp_all add: resizingApp_def initialApp_def)
  have k: "resizedCorners NW cx cy q = q\<lparr>rc_x1 := cx, rc_y1 := cy\<rparr>" for cx cy q
    by (simp add: resizedCorners_def)
  from rectangle_corners_stored [where s = resizingApp and i = 1
        and r = "hd (rectangles resizingApp)" and h = NW and mx = 7 and my = 6] r(1,2)
  obtain pre post where p: "rectangles resizingApp = pre @ hd (rectangles resizingApp) # post"
      "resizeRect 1 7 6 resizingApp = resizingApp\<lparr>rectangles :=
          pre @ resizedCorners NW (max 0 (min (gridWidth resizingApp - 1) 7))
                  (max 0 (min (gridHeight resizingApp - 1) 6)) (hd (rectangles resizingApp)) # post\<rparr>"
    by blast
  from one [OF p(1)] p(2)
  have a1: "resizeRect 1 7 6 resizingApp =
        resizingApp\<lparr>rectangles := [(hd (rectangles resizingApp))\<lparr>rc_x1 := 7, rc_y1 := 6\<rparr>]\<rparr>"
    by (simp add: c k)
  from rectangle_corners_stored [where s = resizingApp and i = 1
        and r = "hd (rectangles resizingApp)" and h = NW and mx = 200 and my = "- 3"] r(1,2)
  obtain pre' post' where p': "rectangles resizingApp = pre' @ hd (rectangles resizingApp) # post'"
      "resizeRect 1 200 (- 3) resizingApp = resizingApp\<lparr>rectangles :=
          pre' @ resizedCorners NW (max 0 (min (gridWidth resizingApp - 1) 200))
                  (max 0 (min (gridHeight resizingApp - 1) (- 3))) (hd (rectangles resizingApp)) # post'\<rparr>"
    by blast
  from one [OF p'(1)] p'(2)
  have a2: "resizeRect 1 200 (- 3) resizingApp =
        resizingApp\<lparr>rectangles := [(hd (rectangles resizingApp))\<lparr>rc_x1 := 79, rc_y1 := 0\<rparr>]\<rparr>"
    by (simp add: c k)
  have a3: "resizeRect 2 7 6 resizingApp = resizingApp"
    using rectangle_corners_stored [where s = resizingApp and i = 2 and mx = 7 and my = 6] r(5)
    by blast
  have a4: "rc_x1 (last (rectangles (commitRectangle dragUpLeftApp)))
       \<le> rc_x2 (last (rectangles (commitRectangle dragUpLeftApp)))"
    using rectangle_corners_stored [where s = dragUpLeftApp] d by blast
  have a5: "rectangles (commitRectangle (initialApp 80 24)) = rectangles (initialApp 80 24)"
    using rectangle_corners_stored [where s = "initialApp 80 24"] n by blast
  show ?thesis
    using d n r(1-4) a1 a2 a3 a4 a5 by blast
qed

section \<open>Properties of the line rasteriser\<close>

lemma linePointsLoop_done:
  "linePointsLoop dx dy sx sy x2 y2 err x2 y2 pts = Some (pts @ [(x2, y2)])"
  by (subst linePointsLoop.simps) simp

lemma linePointsLoop_step:
  "x \<noteq> x2 \<or> y \<noteq> y2 \<Longrightarrow>
   linePointsLoop dx dy sx sy x2 y2 err x y pts =
   linePointsLoop dx dy sx sy x2 y2
     ((if 2 * err > - dy then err - dy else err) + (if 2 * err < dx then dx else 0))
     (if 2 * err > - dy then x + sx else x)
     (if 2 * err < dx then y + sy else y)
     (pts @ [(x, y)])"
  by (subst linePointsLoop.simps) (auto simp add: Let_def)

lemma map_upt_shift:
  "f 0 # map (\<lambda>i. f (Suc i)) [0..<n] = map f [0..<Suc n]"
  by (simp add: map_upt_Suc del: upt_Suc)

lemma mult_pos_int_bounds:
  fixes m d :: int
  assumes "0 < d" "- d < 2 * (m * d)" "2 * (m * d) < 2 * d"
  shows "m = 0"
proof -
  define p where "p = m * d"
  have b: "- d < 2 * p" "2 * p < 2 * d" using assms by (simp_all add: p_def)
  have "(2 * m + 1) * d = 2 * p + d" "(m - 1) * d = p - d"
    by (simp_all add: algebra_simps p_def)
  then have "(2 * m + 1) * d > 0" "(m - 1) * d < 0" using b by simp_all
  then have "2 * m + 1 > 0" "m - 1 < 0"
    using assms(1) by (simp_all add: zero_less_mult_iff mult_less_0_iff)
  then show ?thesis by simp
qed

lemma linePointsLoop_xmajor:
  fixes k :: nat
  assumes "0 \<le> dy" "dy \<le> dx" "0 < dx" "sx = 1 \<or> sx = - 1"
  shows "x = x2 - sx * int k \<Longrightarrow> y = y2 - sy * m \<Longrightarrow>
     err = dx - dy + int k * dy - m * dx \<Longrightarrow>
     - dy < 2 * err \<Longrightarrow> 2 * err < 3 * dx - 2 * dy \<Longrightarrow>
     \<exists>rest. linePointsLoop dx dy sx sy x2 y2 err x y pts = Some (pts @ rest)
       \<and> map fst rest = map (\<lambda>i. x + sx * int i) [0..<Suc k]
       \<and> hd rest = (x, y) \<and> last rest = (x2, y2)"
proof (induction k arbitrary: x y m err pts)
  case 0
  define p where "p = m * dx"
  have e: "err = dx - dy - p" using "0.prems"(3) by (simp add: p_def)
  have "2 * p < 2 * dx" using e "0.prems"(4) assms(1) by linarith
  moreover have "- dx < 2 * p" using e "0.prems"(5) by linarith
  ultimately have "m = 0"
    using mult_pos_int_bounds [of dx m] assms(3) by (simp add: p_def)
  then have "x = x2" "y = y2" using 0 by simp_all
  then show ?case by (simp add: linePointsLoop_done)
next
  case (Suc k)
  have ne: "x \<noteq> x2" using Suc.prems(1) assms(4) by auto
  let ?err = "err - dy + (if 2 * err < dx then dx else 0)"
  let ?y = "if 2 * err < dx then y + sy else y"
  let ?m = "if 2 * err < dx then m - 1 else m"
  have step: "linePointsLoop dx dy sx sy x2 y2 err x y pts
      = linePointsLoop dx dy sx sy x2 y2 ?err (x + sx) ?y (pts @ [(x, y)])"
    using ne Suc.prems(4) by (simp add: linePointsLoop_step)
  have p1: "x + sx = x2 - sx * int k" using Suc.prems(1) by (simp add: algebra_simps)
  have p2: "?y = y2 - sy * ?m" using Suc.prems(2) by (simp add: algebra_simps)
  have p3: "?err = dx - dy + int k * dy - ?m * dx"
    using Suc.prems(3) by (simp add: algebra_simps)
  have p4: "- dy < 2 * ?err" using Suc.prems(4,5) assms by auto
  have p5: "2 * ?err < 3 * dx - 2 * dy" using Suc.prems(4,5) assms by auto
  from Suc.IH [OF p1 p2 p3 p4 p5, of "pts @ [(x, y)]"]
  obtain rest where r: "linePointsLoop dx dy sx sy x2 y2 ?err (x + sx) ?y (pts @ [(x, y)])
        = Some ((pts @ [(x, y)]) @ rest)"
      "map fst rest = map (\<lambda>i. x + sx + sx * int i) [0..<Suc k]"
      "hd rest = (x + sx, ?y)" "last rest = (x2, y2)"
    by blast
  have ne': "rest \<noteq> []" using r(2) by auto
  have "map fst ((x, y) # rest) = map (\<lambda>i. x + sx * int i) [0..<Suc (Suc k)]"
    using map_upt_shift [of "\<lambda>i. x + sx * int i" "Suc k"] r(2)
    by (simp add: algebra_simps del: upt_Suc)
  then show ?case
    using step r ne' by (intro exI [of _ "(x, y) # rest"]) simp
qed


lemma linePointsLoop_ymajor:
  fixes m :: nat
  assumes "0 \<le> dx" "dx < dy" "sy = 1 \<or> sy = - 1"
  shows "x = x2 - sx * k \<Longrightarrow> y = y2 - sy * int m \<Longrightarrow>
     err = dx - dy + k * dy - int m * dx \<Longrightarrow>
     2 * dx - 3 * dy < 2 * err \<Longrightarrow> 2 * err < dx \<Longrightarrow>
     \<exists>rest. linePointsLoop dx dy sx sy x2 y2 err x y pts = Some (pts @ rest)
       \<and> map snd rest = map (\<lambda>i. y + sy * int i) [0..<Suc m]
       \<and> hd rest = (x, y) \<and> last rest = (x2, y2)"
proof (induction m arbitrary: x y k err pts)
  case 0
  define p where "p = k * dy"
  have e: "err = dx - dy + p" using "0.prems"(3) by (simp add: p_def)
  have "2 * p < 2 * dy" using e "0.prems"(5) assms(1) by linarith
  moreover have "- dy < 2 * p" using e "0.prems"(4) by linarith
  ultimately have "k = 0"
    using mult_pos_int_bounds [of dy k] assms(1,2) by (simp add: p_def)
  then have "x = x2" "y = y2" using 0 by simp_all
  then show ?case by (simp add: linePointsLoop_done)
next
  case (Suc m)
  have ne: "y \<noteq> y2" using Suc.prems(2) assms(3) by auto
  let ?err = "(if 2 * err > - dy then err - dy else err) + dx"
  let ?x = "if 2 * err > - dy then x + sx else x"
  let ?k = "if 2 * err > - dy then k - 1 else k"
  have step: "linePointsLoop dx dy sx sy x2 y2 err x y pts
      = linePointsLoop dx dy sx sy x2 y2 ?err ?x (y + sy) (pts @ [(x, y)])"
    using ne Suc.prems(5) by (simp add: linePointsLoop_step)
  have p1: "?x = x2 - sx * ?k" using Suc.prems(1) by (simp add: algebra_simps)
  have p2: "y + sy = y2 - sy * int m" using Suc.prems(2) by (simp add: algebra_simps)
  have p3: "?err = dx - dy + ?k * dy - int m * dx"
    using Suc.prems(3) by (simp add: algebra_simps)
  have p4: "2 * dx - 3 * dy < 2 * ?err" using Suc.prems(4,5) assms by auto
  have p5: "2 * ?err < dx" using Suc.prems(4,5) assms by auto
  from Suc.IH [OF p1 p2 p3 p4 p5, of "pts @ [(x, y)]"]
  obtain rest where r: "linePointsLoop dx dy sx sy x2 y2 ?err ?x (y + sy) (pts @ [(x, y)])
        = Some ((pts @ [(x, y)]) @ rest)"
      "map snd rest = map (\<lambda>i. y + sy + sy * int i) [0..<Suc m]"
      "hd rest = (?x, y + sy)" "last rest = (x2, y2)"
    by blast
  have ne': "rest \<noteq> []" using r(2) by auto
  have "map snd ((x, y) # rest) = map (\<lambda>i. y + sy * int i) [0..<Suc (Suc m)]"
    using map_upt_shift [of "\<lambda>i. y + sy * int i" "Suc m"] r(2)
    by (simp add: algebra_simps del: upt_Suc)
  then show ?case
    using step r ne' by (intro exI [of _ "(x, y) # rest"]) simp
qed

lemma distinct_affine:
  fixes s :: int
  assumes "s = 1 \<or> s = - 1"
  shows "distinct (map (\<lambda>i. a + s * int i) [0..<n])"
proof -
  have "inj_on (\<lambda>i. a + s * int i) (set [0..<n])"
    using assms by (auto simp add: inj_on_def)
  then show ?thesis by (simp add: distinct_map)
qed

lemma distinct_by_fst: "distinct (map fst ps) \<Longrightarrow> distinct ps"
  by (simp add: distinct_map)

lemma distinct_by_snd: "distinct (map snd ps) \<Longrightarrow> distinct ps"
  by (simp add: distinct_map)

lemma getLinePoints_result:
  "\<exists>ps. getLinePoints x1 y1 x2 y2 = Some ps
     \<and> length ps = nat (max \<bar>x2 - x1\<bar> \<bar>y2 - y1\<bar>) + 1
     \<and> distinct ps \<and> hd ps = (x1, y1) \<and> last ps = (x2, y2)"
proof -
  define dx where "dx = \<bar>x2 - x1\<bar>"
  define dy where "dy = \<bar>y2 - y1\<bar>"
  define sx :: int where "sx = (if x1 < x2 then 1 else - 1)"
  define sy :: int where "sy = (if y1 < y2 then 1 else - 1)"
  have g: "getLinePoints x1 y1 x2 y2 = linePointsLoop dx dy sx sy x2 y2 (dx - dy) x1 y1 []"
    by (simp add: getLinePoints_def Let_def dx_def dy_def sx_def sy_def)
  have s: "sx = 1 \<or> sx = - 1" "sy = 1 \<or> sy = - 1" by (simp_all add: sx_def sy_def)
  have nn: "0 \<le> dx" "0 \<le> dy" by (simp_all add: dx_def dy_def)
  have px: "x1 = x2 - sx * dx" by (simp add: sx_def dx_def)
  have py: "y1 = y2 - sy * dy" by (simp add: sy_def dy_def)
  have mx: "max \<bar>x2 - x1\<bar> \<bar>y2 - y1\<bar> = max dx dy" by (simp add: dx_def dy_def)
  consider (point) "dx = 0" "dy = 0" | (xm) "0 < dx" "dy \<le> dx" | (ym) "dx < dy"
    using nn by linarith
  then show ?thesis
  proof cases
    case point
    then have pt: "x1 = x2" "y1 = y2" using px py by simp_all
    have "linePointsLoop dx dy sx sy x2 y2 (dx - dy) x1 y1 [] = Some [(x2, y2)]"
      unfolding pt by (simp add: linePointsLoop_done)
    then have "getLinePoints x1 y1 x2 y2 = Some [(x2, y2)]" by (simp only: g)
    then show ?thesis using pt by simp
  next
    case xm
    have r: "dx - dy = dx - dy + int (nat dx) * dy - dy * dx" using xm by simp
    have "x1 = x2 - sx * int (nat dx)" using px xm by simp
    from linePointsLoop_xmajor [OF nn(2) xm(2) xm(1) s(1) this py r, of "[]"]
    obtain rest where rest: "linePointsLoop dx dy sx sy x2 y2 (dx - dy) x1 y1 [] = Some rest"
        "map fst rest = map (\<lambda>i. x1 + sx * int i) [0..<Suc (nat dx)]"
        "hd rest = (x1, y1)" "last rest = (x2, y2)"
      using xm nn by auto
    have "length (map fst rest) = Suc (nat dx)" by (simp only: rest(2) length_map length_upt)
    then have l: "length rest = nat (max dx dy) + 1" using xm by (simp add: max_def)
    have "distinct (map fst rest)" by (simp only: rest(2) distinct_affine [OF s(1)])
    then have "distinct rest" by (rule distinct_by_fst)
    then show ?thesis using rest l by (simp add: g mx)
  next
    case ym
    have r: "dx - dy = dx - dy + dx * dy - int (nat dy) * dx" using ym nn by simp
    have "y1 = y2 - sy * int (nat dy)" using py ym nn by simp
    from linePointsLoop_ymajor [OF nn(1) ym s(2) px this r, of "[]"]
    obtain rest where rest: "linePointsLoop dx dy sx sy x2 y2 (dx - dy) x1 y1 [] = Some rest"
        "map snd rest = map (\<lambda>i. y1 + sy * int i) [0..<Suc (nat dy)]"
        "hd rest = (x1, y1)" "last rest = (x2, y2)"
      using ym nn by auto
    have "length (map snd rest) = Suc (nat dy)" by (simp only: rest(2) length_map length_upt)
    then have l: "length rest = nat (max dx dy) + 1" using ym by (simp add: max_def)
    have "distinct (map snd rest)" by (simp only: rest(2) distinct_affine [OF s(2)])
    then have "distinct rest" by (rule distinct_by_snd)
    then show ?thesis using rest l by (simp add: g mx)
  qed
qed


lemma linePointsLoop_straight:
  assumes "ax = (if 2 * err > - dy then sx else 0)" "ay = (if 2 * err < dx then sy else 0)"
    "(if 2 * err > - dy then err - dy else err) + (if 2 * err < dx then dx else 0) = err"
  shows "k = 0 \<or> ax \<noteq> 0 \<or> ay \<noteq> 0 \<Longrightarrow> x2 = x + ax * int k \<Longrightarrow> y2 = y + ay * int k \<Longrightarrow>
     linePointsLoop dx dy sx sy x2 y2 err x y pts
       = Some (pts @ map (\<lambda>i. (x + ax * int i, y + ay * int i)) [0..<Suc k])"
proof (induction k arbitrary: x y pts)
  case 0
  then show ?case by (simp add: linePointsLoop_done)
next
  case (Suc k)
  from Suc.prems have nz: "ax \<noteq> 0 \<or> ay \<noteq> 0" by simp
  then have ne: "x \<noteq> x2 \<or> y \<noteq> y2" using Suc.prems(2,3) by auto
  have step: "linePointsLoop dx dy sx sy x2 y2 err x y pts
      = linePointsLoop dx dy sx sy x2 y2 err (x + ax) (y + ay) (pts @ [(x, y)])"
    using linePointsLoop_step [OF ne, of dx dy sx sy err pts] assms by (simp split: if_splits)
  have "x2 = x + ax + ax * int k" "y2 = y + ay + ay * int k"
    using Suc.prems(2,3) by (simp_all add: algebra_simps)
  from Suc.IH [OF _ this, of "pts @ [(x, y)]"] nz
  have "linePointsLoop dx dy sx sy x2 y2 err (x + ax) (y + ay) (pts @ [(x, y)])
      = Some ((pts @ [(x, y)]) @ map (\<lambda>i. (x + ax + ax * int i, y + ay + ay * int i)) [0..<Suc k])"
    by blast
  moreover have "(x, y) # map (\<lambda>i. (x + ax + ax * int i, y + ay + ay * int i)) [0..<Suc k]
      = map (\<lambda>i. (x + ax * int i, y + ay * int i)) [0..<Suc (Suc k)]"
    using map_upt_shift [of "\<lambda>i. (x + ax * int i, y + ay * int i)" "Suc k"]
    by (simp add: algebra_simps del: upt_Suc)
  ultimately show ?case by (simp add: step del: upt_Suc)
qed

lemma getLinePoints_straight:
  assumes "x1 = x2 \<or> y1 = y2 \<or> \<bar>x2 - x1\<bar> = \<bar>y2 - y1\<bar>"
  shows "getLinePoints x1 y1 x2 y2 =
    Some (map (\<lambda>i. (x1 + sgn (x2 - x1) * int i, y1 + sgn (y2 - y1) * int i))
           [0..<Suc (nat (max \<bar>x2 - x1\<bar> \<bar>y2 - y1\<bar>))])"
proof -
  define dx where "dx = \<bar>x2 - x1\<bar>"
  define dy where "dy = \<bar>y2 - y1\<bar>"
  define sx :: int where "sx = (if x1 < x2 then 1 else - 1)"
  define sy :: int where "sy = (if y1 < y2 then 1 else - 1)"
  define k where "k = nat (max dx dy)"
  have g: "getLinePoints x1 y1 x2 y2 = linePointsLoop dx dy sx sy x2 y2 (dx - dy) x1 y1 []"
    by (simp add: getLinePoints_def Let_def dx_def dy_def sx_def sy_def)
  have c: "dx = 0 \<or> dy = 0 \<or> dx = dy" using assms by (auto simp add: dx_def dy_def)
  have nn: "0 \<le> dx" "0 \<le> dy" by (simp_all add: dx_def dy_def)
  have ax: "sgn (x2 - x1) = (if 2 * (dx - dy) > - dy then sx else 0)"
    using c by (auto simp add: dx_def dy_def sx_def sgn_if)
  have ay: "sgn (y2 - y1) = (if 2 * (dx - dy) < dx then sy else 0)"
    using c by (auto simp add: dx_def dy_def sy_def sgn_if)
  have e: "(if 2 * (dx - dy) > - dy then dx - dy - dy else dx - dy)
      + (if 2 * (dx - dy) < dx then dx else 0) = dx - dy"
    using c nn by auto
  have nz: "k = 0 \<or> sgn (x2 - x1) \<noteq> 0 \<or> sgn (y2 - y1) \<noteq> 0"
    by (auto simp add: k_def dx_def dy_def sgn_if)
  have px: "x2 = x1 + sgn (x2 - x1) * int k"
    using c by (auto simp add: k_def dx_def dy_def sgn_if max_def)
  have py: "y2 = y1 + sgn (y2 - y1) * int k"
    using c by (auto simp add: k_def dx_def dy_def sgn_if max_def)
  show ?thesis
    using linePointsLoop_straight [OF ax ay e nz px py, of "[]"]
    by (simp add: g k_def dx_def dy_def del: upt_Suc)
qed

lemma rev_map_upt:
  "rev (map f [0..<Suc n]) = map (\<lambda>i. f (n - i)) [0..<Suc n]"
  by (rule nth_equalityI) (auto simp add: rev_nth nth_append simp del: upt_Suc)

lemma getLinePoints_straight_rev:
  assumes "x1 = x2 \<or> y1 = y2 \<or> \<bar>x2 - x1\<bar> = \<bar>y2 - y1\<bar>"
  shows "getLinePoints x2 y2 x1 y1 = map_option rev (getLinePoints x1 y1 x2 y2)"
proof -
  define n where "n = nat (max \<bar>x2 - x1\<bar> \<bar>y2 - y1\<bar>)"
  have n': "nat (max \<bar>x1 - x2\<bar> \<bar>y1 - y2\<bar>) = n"
    by (simp add: n_def abs_minus_commute)
  have a': "x2 = x1 \<or> y2 = y1 \<or> \<bar>x1 - x2\<bar> = \<bar>y1 - y2\<bar>"
    using assms by (auto simp add: abs_minus_commute)
  have px: "x2 = x1 + sgn (x2 - x1) * int n"
    using assms by (auto simp add: n_def sgn_if max_def)
  have py: "y2 = y1 + sgn (y2 - y1) * int n"
    using assms by (auto simp add: n_def sgn_if max_def)
  have sx: "sgn (x1 - x2) = - sgn (x2 - x1)" "sgn (y1 - y2) = - sgn (y2 - y1)"
    by (simp_all add: sgn_if)
  have "map (\<lambda>i. (x2 + sgn (x1 - x2) * int i, y2 + sgn (y1 - y2) * int i)) [0..<Suc n]
      = map (\<lambda>i. (x1 + sgn (x2 - x1) * int (n - i), y1 + sgn (y2 - y1) * int (n - i))) [0..<Suc n]"
  proof (rule map_cong [OF refl])
    fix i assume "i \<in> set [0..<Suc n]"
    then have i: "int (n - i) = int n - int i" by auto
    have "x2 + sgn (x1 - x2) * int i = x1 + sgn (x2 - x1) * int (n - i)"
      unfolding i sx by (subst px) (simp add: algebra_simps)
    moreover have "y2 + sgn (y1 - y2) * int i = y1 + sgn (y2 - y1) * int (n - i)"
      unfolding i sx by (subst py) (simp add: algebra_simps)
    ultimately show "(x2 + sgn (x1 - x2) * int i, y2 + sgn (y1 - y2) * int i)
        = (x1 + sgn (x2 - x1) * int (n - i), y1 + sgn (y2 - y1) * int (n - i))"
      by simp
  qed
  then show ?thesis
    unfolding getLinePoints_straight [OF assms] getLinePoints_straight [OF a'] n'
    unfolding n_def [symmetric]
    by (simp only: option.map rev_map_upt [where f = "\<lambda>i. (x1 + sgn (x2 - x1) * int i, y1 + sgn (y2 - y1) * int i)"])
qed

text \<open>
  Claim C10. For every pair of integer endpoints the loop of \<^verbatim>\<open>getLinePoints\<close> leaves:
  the function returns a list of cells, of length \<open>max |x2 - x1| |y2 - y1| + 1\<close>, that
  begins with \<open>(x1, y1)\<close> and ends with \<open>(x2, y2)\<close>.
\<close>

theorem getLinePoints_terminates:
  "\<exists>ps. getLinePoints x1 y1 x2 y2 = Some ps
     \<and> length ps = nat (max \<bar>x2 - x1\<bar> \<bar>y2 - y1\<bar>) + 1
     \<and> ps \<noteq> [] \<and> hd ps = (x1, y1) \<and> last ps = (x2, y2)"
proof -
  from getLinePoints_result [of x1 y1 x2 y2]
  obtain ps where ps: "getLinePoints x1 y1 x2 y2 = Some ps"
      "length ps = nat (max \<bar>x2 - x1\<bar> \<bar>y2 - y1\<bar>) + 1"
      "hd ps = (x1, y1)" "last ps = (x2, y2)"
    by blast
  from ps(2) have "ps \<noteq> []" by auto
  with ps show ?thesis by blast
qed

theorem getLinePoints_terminates_witness:
  "getLinePoints 5 3 (- 2) 7 \<noteq> None
   \<and> length (the (getLinePoints 5 3 (- 2) 7)) = 8
   \<and> hd (the (getLinePoints 5 3 (- 2) 7)) = (5, 3)
   \<and> last (the (getLinePoints 5 3 (- 2) 7)) = (- 2, 7)"
  using getLinePoints_terminates [of 5 3 "- 2" 7] by auto

text \<open>
  Claim C6, as stated, fails in its last part: the cells from \<open>(0,0)\<close> to \<open>(2,1)\<close> are
  \<open>(0,0), (1,0), (2,1)\<close>, the cells from \<open>(2,1)\<close> to \<open>(0,0)\<close> are \<open>(2,1), (1,1), (0,0)\<close>,
  and the two sets differ: the error term breaks the tie at the half-way column towards
  the row of the start point in both directions.
\<close>

theorem getLinePoints_swap_differs:
  "getLinePoints 0 0 2 1 = Some [(0, 0), (1, 0), (2, 1)]
   \<and> getLinePoints 2 1 0 0 = Some [(2, 1), (1, 1), (0, 0)]
   \<and> set (the (getLinePoints 0 0 2 1)) \<noteq> set (the (getLinePoints 2 1 0 0))"
proof -
  have a: "getLinePoints 0 0 2 1 = Some [(0, 0), (1, 0), (2, 1)]"
    by (simp add: getLinePoints_def linePointsLoop_step linePointsLoop_done)
  have b: "getLinePoints 2 1 0 0 = Some [(2, 1), (1, 1), (0, 0)]"
    by (simp add: getLinePoints_def linePointsLoop_step linePointsLoop_done)
  have "(1, 0) \<in> set (the (getLinePoints 0 0 2 1))" by (simp add: a)
  moreover have "(1, 0) \<notin> set (the (getLinePoints 2 1 0 0))" by (simp add: b)
  ultimately show ?thesis using a b by metis
qed

text \<open>
  Claim C6, amended. The two examples hold as stated. For every pair of integer endpoints
  both directions return a list; the two lists have the same number of cells,
  \<open>max |x2 - x1| |y2 - y1| + 1\<close>, without repetition, so the two cell sets have the same
  size; each list begins at its first endpoint and ends at its second. For a horizontal, a
  vertical and a 45-degree line the swapped call returns the same cells in reverse order, so
  the two cell sets are equal. For other slopes the two sets can differ.
\<close>

theorem getLinePoints_examples_and_swap:
  "getLinePoints 0 0 3 0 = Some [(0, 0), (1, 0), (2, 0), (3, 0)]
   \<and> getLinePoints 0 0 2 2 = Some [(0, 0), (1, 1), (2, 2)]
   \<and> (\<exists>ps qs. getLinePoints x1 y1 x2 y2 = Some ps \<and> getLinePoints x2 y2 x1 y1 = Some qs
        \<and> length ps = nat (max \<bar>x2 - x1\<bar> \<bar>y2 - y1\<bar>) + 1 \<and> length qs = length ps
        \<and> distinct ps \<and> distinct qs \<and> card (set qs) = card (set ps)
        \<and> hd ps = (x1, y1) \<and> last ps = (x2, y2) \<and> hd qs = (x2, y2) \<and> last qs = (x1, y1)
        \<and> (x1 = x2 \<or> y1 = y2 \<or> \<bar>x2 - x1\<bar> = \<bar>y2 - y1\<bar> \<longrightarrow> qs = rev ps \<and> set qs = set ps))"
proof (intro conjI)
  show "getLinePoints 0 0 3 0 = Some [(0, 0), (1, 0), (2, 0), (3, 0)]"
    by (simp add: getLinePoints_def linePointsLoop_step linePointsLoop_done)
  show "getLinePoints 0 0 2 2 = Some [(0, 0), (1, 1), (2, 2)]"
    by (simp add: getLinePoints_def linePointsLoop_step linePointsLoop_done)
  from getLinePoints_result [of x1 y1 x2 y2]
  obtain ps where ps: "getLinePoints x1 y1 x2 y2 = Some ps"
      "length ps = nat (max \<bar>x2 - x1\<bar> \<bar>y2 - y1\<bar>) + 1"
      "distinct ps" "hd ps = (x1, y1)" "last ps = (x2, y2)"
    by blast
  from getLinePoints_result [of x2 y2 x1 y1]
  obtain qs where qs: "getLinePoints x2 y2 x1 y1 = Some qs"
      "length qs = nat (max \<bar>x1 - x2\<bar> \<bar>y1 - y2\<bar>) + 1"
      "distinct qs" "hd qs = (x2, y2)" "last qs = (x1, y1)"
    by blast
  have l: "length qs = length ps"
    by (simp add: ps(2) qs(2) abs_minus_commute)
  have c: "card (set qs) = card (set ps)"
    using l ps(3) qs(3) by (simp add: distinct_card)
  have r: "qs = rev ps \<and> set qs = set ps"
    if "x1 = x2 \<or> y1 = y2 \<or> \<bar>x2 - x1\<bar> = \<bar>y2 - y1\<bar>"
    using getLinePoints_straight_rev [OF that] ps(1) qs(1) by auto
  show "\<exists>ps qs. getLinePoints x1 y1 x2 y2 = Some ps \<and> getLinePoints x2 y2 x1 y1 = Some qs
        \<and> length ps = nat (max \<bar>x2 - x1\<bar> \<bar>y2 - y1\<bar>) + 1 \<and> length qs = length ps
        \<and> distinct ps \<and> distinct qs \<and> card (set qs) = card (set ps)
        \<and> hd ps = (x1, y1) \<and> last ps = (x2, y2) \<and> hd qs = (x2, y2) \<and> last qs = (x1, y1)
        \<and> (x1 = x2 \<or> y1 = y2 \<or> \<bar>x2 - x1\<bar> = \<bar>y2 - y1\<bar> \<longrightarrow> qs = rev ps \<and> set qs = set ps)"
    using ps qs l c r by blast
qed

theorem getLinePoints_examples_and_swap_witness:
  "getLinePoints 3 0 0 0 = Some (rev [(0, 0), (1, 0), (2, 0), (3, 0)])
   \<and> set (the (getLinePoints 3 0 0 0)) = set (the (getLinePoints 0 0 3 0))
   \<and> length (the (getLinePoints 2 1 0 0)) = length (the (getLinePoints 0 0 2 1))"
proof -
  have h: "(0::int) = 3 \<or> (0::int) = 0 \<or> \<bar>3 - 0\<bar> = \<bar>0 - (0::int)\<bar>" by simp
  from getLinePoints_examples_and_swap [of 0 0 3 0] h
  have a: "getLinePoints 3 0 0 0 = Some (rev [(0, 0), (1, 0), (2, 0), (3, 0)])"
    "set (the (getLinePoints 3 0 0 0)) = set (the (getLinePoints 0 0 3 0))"
    by auto
  from getLinePoints_examples_and_swap [of 0 0 2 1]
  have "length (the (getLinePoints 2 1 0 0)) = length (the (getLinePoints 0 0 2 1))"
    by auto
  with a show ?thesis by blast
qed

section \<open>Properties of the layer order\<close>

lemma updateFirst_distinct:
  "distinct (map z xs) \<Longrightarrow>
   updateFirst (\<lambda>x. z x = k) f xs = map (\<lambda>x. if z x = k then f x else x) xs"
proof (induction xs)
  case Nil
  then show ?case by simp
next
  case (Cons x xs)
  show ?case
  proof (cases "z x = k")
    case True
    have "z x \<notin> z ` set xs" using Cons.prems by simp
    then have "\<forall>y\<in>set xs. z y \<noteq> k" using True by (metis image_eqI)
    then have "map (\<lambda>x. if z x = k then f x else x) xs = xs"
      by (simp add: map_idI)
    then show ?thesis using True by simp
  next
    case False
    then show ?thesis using Cons by simp
  qed
qed

lemma zstep_only:
  assumes laws: "\<And>v a. z (setz v a) = v" "\<And>a. setz (z a) a = a"
    and d: "distinct (map z xs)" and n: "sz \<notin> z ` set xs"
  shows "updateFirst (\<lambda>x. z x = nz) (setz sz) xs = map (\<lambda>x. setz (swapZ sz nz (z x)) x) xs"
proof -
  have "(if z x = nz then setz sz x else x) = setz (swapZ sz nz (z x)) x" if "x \<in> set xs" for x
    using that n laws(2) by (auto simp add: swapZ_def)
  then show ?thesis
    unfolding updateFirst_distinct [OF d] by (intro map_cong refl)
qed

lemma idstep_only:
  assumes laws: "\<And>v a. z (setz v a) = v" "\<And>a. setz (z a) a = a"
  shows "distinct (map z xs) \<Longrightarrow> find (\<lambda>x. ident x = i) xs = Some b0 \<Longrightarrow> z b0 = sz \<Longrightarrow>
    nz \<notin> z ` set xs \<Longrightarrow>
    updateFirst (\<lambda>x. ident x = i) (setz nz) xs = map (\<lambda>x. setz (swapZ sz nz (z x)) x) xs"
proof (induction xs)
  case Nil
  then show ?case by simp
next
  case (Cons x xs)
  show ?case
  proof (cases "ident x = i")
    case True
    then have x: "b0 = x" "z x = sz" using Cons.prems by simp_all
    have "z x \<notin> z ` set xs" using Cons.prems by simp
    then have "\<forall>y\<in>set xs. z y \<noteq> sz" using x by (metis image_eqI)
    moreover have "\<forall>y\<in>set xs. z y \<noteq> nz" using Cons.prems(4) by (metis image_eqI list.set_intros(2))
    ultimately have "\<forall>y\<in>set xs. z y \<noteq> sz \<and> z y \<noteq> nz" by blast
    then have "map (\<lambda>x. setz (swapZ sz nz (z x)) x) xs = xs"
      by (intro map_idI) (simp add: swapZ_def laws)
    then show ?thesis using True x by (simp add: swapZ_def)
  next
    case False
    then have f: "find (\<lambda>x. ident x = i) xs = Some b0" using Cons.prems by simp
    then have "b0 \<in> set xs" by (auto simp add: find_Some_iff)
    then have "z x \<noteq> sz" using Cons.prems(1,3) by auto
    moreover have "z x \<noteq> nz" using Cons.prems(4) by auto
    ultimately have "setz (swapZ sz nz (z x)) x = x" by (simp add: swapZ_def laws)
    then show ?thesis using False Cons f by simp
  qed
qed

lemma both_steps:
  assumes laws: "\<And>v a. z (setz v a) = v" "\<And>a. setz (z a) a = a"
      "\<And>v a. ident (setz v a) = ident a"
    and ne: "sz \<noteq> nz"
  shows "distinct (map z xs) \<Longrightarrow> find (\<lambda>x. ident x = i) xs = Some b0 \<Longrightarrow> z b0 = sz \<Longrightarrow>
    updateFirst (\<lambda>x. ident x = i) (setz nz) (updateFirst (\<lambda>x. z x = nz) (setz sz) xs)
      = map (\<lambda>x. setz (swapZ sz nz (z x)) x) xs"
proof (induction xs)
  case Nil
  then show ?case by simp
next
  case (Cons x xs)
  have d: "distinct (map z xs)" "z x \<notin> z ` set xs" using Cons.prems(1) by simp_all
  show ?case
  proof (cases "z x = nz")
    case True
    then have i: "ident x \<noteq> i" using Cons.prems(2,3) ne by auto
    then have f: "find (\<lambda>x. ident x = i) xs = Some b0" using Cons.prems by simp
    have "nz \<notin> z ` set xs" using d True by simp
    from idstep_only [OF laws(1,2) d(1) f Cons.prems(3) this]
    show ?thesis using True i ne by (simp add: laws swapZ_def)
  next
    case False
    show ?thesis
    proof (cases "ident x = i")
      case True
      then have x: "b0 = x" "z x = sz" using Cons.prems by simp_all
      then have "sz \<notin> z ` set xs" using d by simp
      from zstep_only [OF laws(1,2) d(1) this, of nz]
      show ?thesis using True False x by (simp add: swapZ_def)
    next
      case i: False
      then have f: "find (\<lambda>x. ident x = i) xs = Some b0" using Cons.prems by simp
      then have "b0 \<in> set xs" by (auto simp add: find_Some_iff)
      then have "z x \<noteq> sz" using d Cons.prems(3) by auto
      then have "setz (swapZ sz nz (z x)) x = x" using False by (simp add: swapZ_def laws)
      then show ?thesis using False i Cons.IH [OF d(1) f Cons.prems(3)] by simp
    qed
  qed
qed


lemma getSelectedObject_cases:
  assumes "getSelectedObject s = Some sel"
  shows "(so_type sel = TypeText \<and> (\<exists>b. find (\<lambda>b. tb_id b = so_id sel) (textBoxes s) = Some b
            \<and> tb_zIndex b = so_zIndex sel))
       \<or> (so_type sel = TypeRect \<and> (\<exists>r. find (\<lambda>r. rc_id r = so_id sel) (rectangles s) = Some r
            \<and> rc_zIndex r = so_zIndex sel))
       \<or> (so_type sel = TypeLine \<and> (\<exists>l. find (\<lambda>l. ln_id l = so_id sel) (lines s) = Some l
            \<and> ln_zIndex l = so_zIndex sel))"
proof -
  define t where "t = (if length (selectedTextBoxIds s) = 1
      then find (\<lambda>b. tb_id b = hd (selectedTextBoxIds s)) (textBoxes s) else None)"
  define r where "r = (if length (selectedRectIds s) = 1
      then find (\<lambda>r. rc_id r = hd (selectedRectIds s)) (rectangles s) else None)"
  define l where "l = (if length (selectedLineIds s) = 1
      then find (\<lambda>l. ln_id l = hd (selectedLineIds s)) (lines s) else None)"
  have k: "find p xs = Some x \<Longrightarrow> p x" for p :: "'a \<Rightarrow> bool" and xs x
    by (auto simp add: find_Some_iff)
  have g: "getSelectedObject s =
    (case t of
       Some box \<Rightarrow> Some \<lparr>so_type = TypeText, so_zIndex = tb_zIndex box, so_id = tb_id box\<rparr>
     | None \<Rightarrow>
     (case r of
       Some rect \<Rightarrow> Some \<lparr>so_type = TypeRect, so_zIndex = rc_zIndex rect, so_id = rc_id rect\<rparr>
     | None \<Rightarrow>
     (case l of
       Some line \<Rightarrow> Some \<lparr>so_type = TypeLine, so_zIndex = ln_zIndex line, so_id = ln_id line\<rparr>
     | None \<Rightarrow> None)))"
    unfolding getSelectedObject_def t_def r_def l_def ..
  show ?thesis
  proof (cases t)
    case (Some box)
    then have sel: "sel = \<lparr>so_type = TypeText, so_zIndex = tb_zIndex box, so_id = tb_id box\<rparr>"
      using assms g by simp
    from Some have f: "find (\<lambda>b. tb_id b = hd (selectedTextBoxIds s)) (textBoxes s) = Some box"
      by (simp add: t_def split: if_splits)
    from k [OF f] have "tb_id box = hd (selectedTextBoxIds s)" .
    with f have "find (\<lambda>b. tb_id b = so_id sel) (textBoxes s) = Some box"
      by (simp add: sel)
    then show ?thesis by (simp add: sel)
  next
    case None
    note tn = None
    show ?thesis
    proof (cases r)
      case (Some rect)
      then have sel: "sel = \<lparr>so_type = TypeRect, so_zIndex = rc_zIndex rect, so_id = rc_id rect\<rparr>"
        using assms g tn by simp
      from Some have f: "find (\<lambda>r. rc_id r = hd (selectedRectIds s)) (rectangles s) = Some rect"
        by (simp add: r_def split: if_splits)
      from k [OF f] have "rc_id rect = hd (selectedRectIds s)" .
      with f have "find (\<lambda>r. rc_id r = so_id sel) (rectangles s) = Some rect"
        by (simp add: sel)
      then show ?thesis by (simp add: sel)
    next
      case None
      note rn = None
      show ?thesis
      proof (cases l)
        case (Some line)
        then have sel: "sel = \<lparr>so_type = TypeLine, so_zIndex = ln_zIndex line, so_id = ln_id line\<rparr>"
          using assms g tn rn by simp
        from Some have f: "find (\<lambda>l. ln_id l = hd (selectedLineIds s)) (lines s) = Some line"
          by (simp add: l_def split: if_splits)
        from k [OF f] have "ln_id line = hd (selectedLineIds s)" .
        with f have "find (\<lambda>l. ln_id l = so_id sel) (lines s) = Some line"
          by (simp add: sel)
        then show ?thesis by (simp add: sel)
      next
        case None
        then show ?thesis using assms g tn rn by simp
      qed
    qed
  qed
qed

lemma find_Some_mem: "find p xs = Some x \<Longrightarrow> x \<in> set xs"
  by (auto simp add: find_Some_iff)

lemma distinct_collect:
  assumes "distinct (collectZIndices s)"
  shows "distinct (map tb_zIndex (textBoxes s))" "distinct (map rc_zIndex (rectangles s))"
    "distinct (map ln_zIndex (lines s))"
    "tb_zIndex ` set (textBoxes s) \<inter> rc_zIndex ` set (rectangles s) = {}"
    "tb_zIndex ` set (textBoxes s) \<inter> ln_zIndex ` set (lines s) = {}"
    "rc_zIndex ` set (rectangles s) \<inter> ln_zIndex ` set (lines s) = {}"
  using assms by (auto simp add: collectZIndices_def)

lemma document_swapZIndex:
  assumes d: "distinct (collectZIndices s)" and g: "getSelectedObject s = Some sel"
    and ne: "so_zIndex sel \<noteq> nz"
  shows "document (swapZIndex sel nz s) = zSwappedDocument (so_zIndex sel) nz s"
proof -
  note dc = distinct_collect [OF d]
  have tl: "tb_zIndex (b\<lparr>tb_zIndex := v\<rparr>) = v" "b\<lparr>tb_zIndex := tb_zIndex b\<rparr> = b"
    "tb_id (b\<lparr>tb_zIndex := v\<rparr>) = tb_id b" for b :: TextBox and v
    by simp_all
  have rl: "rc_zIndex (r\<lparr>rc_zIndex := v\<rparr>) = v" "r\<lparr>rc_zIndex := rc_zIndex r\<rparr> = r"
    "rc_id (r\<lparr>rc_zIndex := v\<rparr>) = rc_id r" for r :: Rectangle and v
    by simp_all
  have ll: "ln_zIndex (l\<lparr>ln_zIndex := v\<rparr>) = v" "l\<lparr>ln_zIndex := ln_zIndex l\<rparr> = l"
    "ln_id (l\<lparr>ln_zIndex := v\<rparr>) = ln_id l" for l :: Line and v
    by simp_all
  let ?sz = "so_zIndex sel"
  from getSelectedObject_cases [OF g]
  consider (textSel) b where "so_type sel = TypeText"
      "find (\<lambda>b. tb_id b = so_id sel) (textBoxes s) = Some b" "tb_zIndex b = ?sz"
    | (rectSel) r where "so_type sel = TypeRect"
      "find (\<lambda>r. rc_id r = so_id sel) (rectangles s) = Some r" "rc_zIndex r = ?sz"
    | (lineSel) l where "so_type sel = TypeLine"
      "find (\<lambda>l. ln_id l = so_id sel) (lines s) = Some l" "ln_zIndex l = ?sz"
    by blast
  then show ?thesis
  proof cases
    case textSel
    have m: "?sz \<in> tb_zIndex ` set (textBoxes s)"
      using find_Some_mem [OF textSel(2)] textSel(3) by force
    then have nr: "?sz \<notin> rc_zIndex ` set (rectangles s)" and nl: "?sz \<notin> ln_zIndex ` set (lines s)"
      using dc(4,5) by blast+
    have t: "updateFirst (\<lambda>b. tb_id b = so_id sel) (\<lambda>b. b\<lparr>tb_zIndex := nz\<rparr>)
        (updateFirst (\<lambda>b. tb_zIndex b = nz) (\<lambda>b. b\<lparr>tb_zIndex := ?sz\<rparr>) (textBoxes s))
      = map (\<lambda>t. t\<lparr>tb_zIndex := swapZ ?sz nz (tb_zIndex t)\<rparr>) (textBoxes s)"
      using both_steps [where z = tb_zIndex and setz = "\<lambda>v b. b\<lparr>tb_zIndex := v\<rparr>"
          and ident = tb_id, OF tl ne dc(1) textSel(2,3)] .
    have r: "updateFirst (\<lambda>r. rc_zIndex r = nz) (\<lambda>r. r\<lparr>rc_zIndex := ?sz\<rparr>) (rectangles s)
      = map (\<lambda>r. r\<lparr>rc_zIndex := swapZ ?sz nz (rc_zIndex r)\<rparr>) (rectangles s)"
      using zstep_only [where z = rc_zIndex and setz = "\<lambda>v r. r\<lparr>rc_zIndex := v\<rparr>",
          OF rl(1,2) dc(2) nr] .
    have l: "updateFirst (\<lambda>l. ln_zIndex l = nz) (\<lambda>l. l\<lparr>ln_zIndex := ?sz\<rparr>) (lines s)
      = map (\<lambda>l. l\<lparr>ln_zIndex := swapZ ?sz nz (ln_zIndex l)\<rparr>) (lines s)"
      using zstep_only [where z = ln_zIndex and setz = "\<lambda>v l. l\<lparr>ln_zIndex := v\<rparr>",
          OF ll(1,2) dc(3) nl] .
    show ?thesis
      by (simp add: swapZIndex_def saveSnapshot_def Let_def document_def zSwappedDocument_def
          textSel(1) t r l)
  next
    case rectSel
    have m: "?sz \<in> rc_zIndex ` set (rectangles s)"
      using find_Some_mem [OF rectSel(2)] rectSel(3) by force
    then have nr: "?sz \<notin> tb_zIndex ` set (textBoxes s)" and nl: "?sz \<notin> ln_zIndex ` set (lines s)"
      using dc(4,6) by blast+
    have r: "updateFirst (\<lambda>r. rc_id r = so_id sel) (\<lambda>r. r\<lparr>rc_zIndex := nz\<rparr>)
        (updateFirst (\<lambda>r. rc_zIndex r = nz) (\<lambda>r. r\<lparr>rc_zIndex := ?sz\<rparr>) (rectangles s))
      = map (\<lambda>r. r\<lparr>rc_zIndex := swapZ ?sz nz (rc_zIndex r)\<rparr>) (rectangles s)"
      using both_steps [where z = rc_zIndex and setz = "\<lambda>v r. r\<lparr>rc_zIndex := v\<rparr>"
          and ident = rc_id, OF rl ne dc(2) rectSel(2,3)] .
    have t: "updateFirst (\<lambda>b. tb_zIndex b = nz) (\<lambda>b. b\<lparr>tb_zIndex := ?sz\<rparr>) (textBoxes s)
      = map (\<lambda>t. t\<lparr>tb_zIndex := swapZ ?sz nz (tb_zIndex t)\<rparr>) (textBoxes s)"
      using zstep_only [where z = tb_zIndex and setz = "\<lambda>v b. b\<lparr>tb_zIndex := v\<rparr>",
          OF tl(1,2) dc(1) nr] .
    have l: "updateFirst (\<lambda>l. ln_zIndex l = nz) (\<lambda>l. l\<lparr>ln_zIndex := ?sz\<rparr>) (lines s)
      = map (\<lambda>l. l\<lparr>ln_zIndex := swapZ ?sz nz (ln_zIndex l)\<rparr>) (lines s)"
      using zstep_only [where z = ln_zIndex and setz = "\<lambda>v l. l\<lparr>ln_zIndex := v\<rparr>",
          OF ll(1,2) dc(3) nl] .
    show ?thesis
      by (simp add: swapZIndex_def saveSnapshot_def Let_def document_def zSwappedDocument_def
          rectSel(1) t r l)
  next
    case lineSel
    have m: "?sz \<in> ln_zIndex ` set (lines s)"
      using find_Some_mem [OF lineSel(2)] lineSel(3) by force
    then have nt: "?sz \<notin> tb_zIndex ` set (textBoxes s)"
      and nr: "?sz \<notin> rc_zIndex ` set (rectangles s)"
      using dc(5,6) by blast+
    have l: "updateFirst (\<lambda>l. ln_id l = so_id sel) (\<lambda>l. l\<lparr>ln_zIndex := nz\<rparr>)
        (updateFirst (\<lambda>l. ln_zIndex l = nz) (\<lambda>l. l\<lparr>ln_zIndex := ?sz\<rparr>) (lines s))
      = map (\<lambda>l. l\<lparr>ln_zIndex := swapZ ?sz nz (ln_zIndex l)\<rparr>) (lines s)"
      using both_steps [where z = ln_zIndex and setz = "\<lambda>v l. l\<lparr>ln_zIndex := v\<rparr>"
          and ident = ln_id, OF ll ne dc(3) lineSel(2,3)] .
    have t: "updateFirst (\<lambda>b. tb_zIndex b = nz) (\<lambda>b. b\<lparr>tb_zIndex := ?sz\<rparr>) (textBoxes s)
      = map (\<lambda>t. t\<lparr>tb_zIndex := swapZ ?sz nz (tb_zIndex t)\<rparr>) (textBoxes s)"
      using zstep_only [where z = tb_zIndex and setz = "\<lambda>v b. b\<lparr>tb_zIndex := v\<rparr>",
          OF tl(1,2) dc(1) nt] .
    have r: "updateFirst (\<lambda>r. rc_zIndex r = nz) (\<lambda>r. r\<lparr>rc_zIndex := ?sz\<rparr>) (rectangles s)
      = map (\<lambda>r. r\<lparr>rc_zIndex := swapZ ?sz nz (rc_zIndex r)\<rparr>) (rectangles s)"
      using zstep_only [where z = rc_zIndex and setz = "\<lambda>v r. r\<lparr>rc_zIndex := v\<rparr>",
          OF rl(1,2) dc(2) nr] .
    show ?thesis
      by (simp add: swapZIndex_def saveSnapshot_def Let_def document_def zSwappedDocument_def
          lineSel(1) t r l)
  qed
qed

lemma selected_zIndex_mem:
  assumes "getSelectedObject s = Some sel"
  shows "so_zIndex sel \<in> set (collectZIndices s)"
proof -
  from getSelectedObject_cases [OF assms]
  consider b where "b \<in> set (textBoxes s)" "tb_zIndex b = so_zIndex sel"
    | r where "r \<in> set (rectangles s)" "rc_zIndex r = so_zIndex sel"
    | l where "l \<in> set (lines s)" "ln_zIndex l = so_zIndex sel"
    by (auto dest!: find_Some_mem)
  then show ?thesis
  proof cases
    case 1
    then have "so_zIndex sel \<in> tb_zIndex ` set (textBoxes s)" by force
    then show ?thesis by (simp add: collectZIndices_def)
  next
    case 2
    then have "so_zIndex sel \<in> rc_zIndex ` set (rectangles s)" by force
    then show ?thesis by (simp add: collectZIndices_def)
  next
    case 3
    then have "so_zIndex sel \<in> ln_zIndex ` set (lines s)" by force
    then show ?thesis by (simp add: collectZIndices_def)
  qed
qed


lemma indexOf_mem:
  "v \<in> set xs \<Longrightarrow>
   0 \<le> indexOf xs v \<and> nat (indexOf xs v) < length xs \<and> xs ! nat (indexOf xs v) = v"
proof (induction xs)
  case Nil
  then show ?case by simp
next
  case (Cons x xs)
  show ?case
  proof (cases "x = v")
    case True
    then show ?thesis by simp
  next
    case False
    then have "v \<in> set xs" using Cons.prems by simp
    from Cons.IH [OF this] False show ?thesis
      by (simp add: Let_def nat_add_distrib)
  qed
qed

lemma strict_sorted_le:
  fixes zs :: "int list"
  assumes "sorted_wrt (<) zs" "i \<le> j" "j < length zs"
  shows "zs ! i \<le> zs ! j"
proof (cases "i = j")
  case True
  then show ?thesis by simp
next
  case False
  then have "i < j" using assms(2) by simp
  from sorted_wrt_nth_less [OF assms(1) this assms(3)] show ?thesis by simp
qed

lemma strict_sorted_gap:
  fixes zs :: "int list"
  assumes s: "sorted_wrt (<) zs" and j: "Suc j < length zs"
  shows "zs ! j < zs ! Suc j" "\<forall>z\<in>set zs. \<not> (zs ! j < z \<and> z < zs ! Suc j)"
proof -
  show "zs ! j < zs ! Suc j"
    using sorted_wrt_nth_less [OF s _ j, of j] by simp
  show "\<forall>z\<in>set zs. \<not> (zs ! j < z \<and> z < zs ! Suc j)"
  proof
    fix z assume "z \<in> set zs"
    then obtain k where k: "k < length zs" "zs ! k = z" by (auto simp add: in_set_conv_nth)
    show "\<not> (zs ! j < z \<and> z < zs ! Suc j)"
    proof (cases "k \<le> j")
      case True
      from strict_sorted_le [OF s True] j k show ?thesis by simp
    next
      case False
      then have "Suc j \<le> k" by simp
      from strict_sorted_le [OF s this k(1)] k show ?thesis by simp
    qed
  qed
qed

lemma strict_sorted_least:
  fixes zs :: "int list"
  assumes s: "sorted_wrt (<) zs" and i: "i < length zs" and m: "\<forall>z\<in>set zs. zs ! i \<le> z"
  shows "i = 0"
proof (rule ccontr)
  assume "i \<noteq> 0"
  then have "0 < i" by simp
  from sorted_wrt_nth_less [OF s this i] have "zs ! 0 < zs ! i" .
  moreover have "0 < length zs" using i by auto
  then have "zs ! 0 \<in> set zs" by (rule nth_mem)
  ultimately show False using m by force
qed

lemma strict_sorted_greatest:
  fixes zs :: "int list"
  assumes s: "sorted_wrt (<) zs" and i: "i < length zs" and m: "\<forall>z\<in>set zs. z \<le> zs ! i"
  shows "Suc i = length zs"
proof (rule ccontr)
  assume "Suc i \<noteq> length zs"
  then have j: "Suc i < length zs" using i by simp
  from strict_sorted_gap(1) [OF s j] have "zs ! i < zs ! Suc i" .
  moreover have "zs ! Suc i \<in> set zs" using j by simp
  ultimately show False using m by force
qed

lemma swapZ_involution: "swapZ a b (swapZ a b v) = v"
  by (simp add: swapZ_def)

lemma mset_map_swapZ:
  assumes "distinct xs" "a \<in> set xs" "b \<in> set xs"
  shows "mset (map (swapZ a b) xs) = mset xs"
proof -
  have inj: "inj (swapZ a b)"
    by (rule inj_on_inverseI [where g = "swapZ a b"]) (rule swapZ_involution)
  then have d: "distinct (map (swapZ a b) xs)"
    using assms(1) by (simp add: distinct_map inj_on_def)
  have sub: "swapZ a b ` set xs \<subseteq> set xs"
    using assms(2,3) by (auto simp add: swapZ_def)
  have "set xs \<subseteq> swapZ a b ` set xs"
  proof
    fix v assume "v \<in> set xs"
    then have "swapZ a b v \<in> set xs" using sub by blast
    then have "swapZ a b (swapZ a b v) \<in> swapZ a b ` set xs" by (rule imageI)
    then show "v \<in> swapZ a b ` set xs" by (simp add: swapZ_involution)
  qed
  with sub have "set (map (swapZ a b) xs) = set xs" by auto
  then show ?thesis using set_eq_iff_mset_eq_distinct [OF d assms(1)] by blast
qed

lemma zip_map_same: "zip xs (map f xs) = map (\<lambda>x. (x, f x)) xs"
  by (induction xs) simp_all

lemma changed_by_swapZ:
  assumes "distinct xs" "a \<in> set xs" "b \<in> set xs" "a \<noteq> b"
  shows "length (filter (\<lambda>(u, v). u \<noteq> v) (zip xs (map (swapZ a b) xs))) = 2"
proof -
  have "length (filter (\<lambda>(u, v). u \<noteq> v) (zip xs (map (swapZ a b) xs)))
      = length (filter (\<lambda>v. v = a \<or> v = b) xs)"
    unfolding zip_map_same filter_map length_map comp_def
    using assms(4)
    by (intro arg_cong [where f = length] filter_cong) (auto simp add: swapZ_def)
  also have "\<dots> = card ({v. v = a \<or> v = b} \<inter> set xs)"
    using assms(1) by (simp add: distinct_length_filter)
  also have "{v. v = a \<or> v = b} \<inter> set xs = {a, b}" using assms(2,3) by auto
  also have "card {a, b} = 2" using assms(4) by simp
  finally show ?thesis .
qed

lemma collectZIndices_swapped:
  assumes "document t = zSwappedDocument a b s"
  shows "collectZIndices t = map (swapZ a b) (collectZIndices s)"
proof -
  have "hs_textBoxes (document t) = hs_textBoxes (zSwappedDocument a b s)"
    "hs_rectangles (document t) = hs_rectangles (zSwappedDocument a b s)"
    "hs_lines (document t) = hs_lines (zSwappedDocument a b s)"
    using assms by simp_all
  then have "textBoxes t = map (\<lambda>t. t\<lparr>tb_zIndex := swapZ a b (tb_zIndex t)\<rparr>) (textBoxes s)"
    "rectangles t = map (\<lambda>r. r\<lparr>rc_zIndex := swapZ a b (rc_zIndex r)\<rparr>) (rectangles s)"
    "lines t = map (\<lambda>l. l\<lparr>ln_zIndex := swapZ a b (ln_zIndex l)\<rparr>) (lines s)"
    by (simp_all add: document_def zSwappedDocument_def)
  then show ?thesis by (simp add: collectZIndices_def comp_def)
qed

lemma getAllZIndices_props:
  assumes "distinct (collectZIndices s)"
  shows "sorted_wrt (<) (getAllZIndices s)" "set (getAllZIndices s) = set (collectZIndices s)"
    "length (getAllZIndices s) = length (collectZIndices s)"
  using assms by (simp_all add: getAllZIndices_def strict_sorted_iff)


lemma moveLayerDown_result:
  assumes d: "distinct (collectZIndices s)" and g: "getSelectedObject s = Some sel"
  shows "(\<forall>z\<in>set (collectZIndices s). so_zIndex sel \<le> z) \<Longrightarrow> moveLayerDown s = s"
    and "(\<exists>z\<in>set (collectZIndices s). z < so_zIndex sel) \<Longrightarrow>
      \<exists>nz\<in>set (collectZIndices s). nz < so_zIndex sel
        \<and> (\<forall>z\<in>set (collectZIndices s). \<not> (nz < z \<and> z < so_zIndex sel))
        \<and> moveLayerDown s = swapZIndex sel nz s"
proof -
  define zs where "zs = getAllZIndices s"
  define ci where "ci = indexOf zs (so_zIndex sel)"
  note p = getAllZIndices_props [OF d, folded zs_def]
  have "so_zIndex sel \<in> set zs" using selected_zIndex_mem [OF g] p(2) by simp
  from indexOf_mem [OF this]
  have c: "0 \<le> ci" "nat ci < length zs" "zs ! nat ci = so_zIndex sel"
    by (simp_all add: ci_def)
  have u: "moveLayerDown s = (if ci \<le> 0 then s else swapZIndex sel (zs ! nat (ci - 1)) s)"
    by (simp add: moveLayerDown_def g Let_def zs_def ci_def)
  {
    assume "\<forall>z\<in>set (collectZIndices s). so_zIndex sel \<le> z"
    then have "\<forall>z\<in>set zs. zs ! nat ci \<le> z" using p(2) c(3) by simp
    from strict_sorted_least [OF p(1) c(2) this] have "ci \<le> 0" by simp
    then show "moveLayerDown s = s" by (simp add: u)
  }
  {
    assume "\<exists>z\<in>set (collectZIndices s). z < so_zIndex sel"
    then obtain z where z: "z \<in> set zs" "z < zs ! nat ci" using p(2) c(3) by auto
    then obtain k where k: "k < length zs" "zs ! k = z" by (auto simp add: in_set_conv_nth)
    have "nat ci \<noteq> 0"
    proof
      assume "nat ci = 0"
      then have "zs ! nat ci \<le> zs ! k" using strict_sorted_le [OF p(1) _ k(1), of 0] by simp
      then show False using z k by simp
    qed
    then have pos: "0 < ci" by simp
    define j where "j = nat (ci - 1)"
    have j: "Suc j = nat ci" using pos by (simp add: j_def)
    then have jl: "Suc j < length zs" using c(2) by simp
    note gap = strict_sorted_gap [OF p(1) jl, unfolded j c(3)]
    have "zs ! j \<in> set zs" using jl by simp
    then have "zs ! j \<in> set (collectZIndices s)" using p(2) by simp
    moreover have "moveLayerDown s = swapZIndex sel (zs ! j) s"
      using pos by (simp add: u j_def)
    ultimately show "\<exists>nz\<in>set (collectZIndices s). nz < so_zIndex sel
        \<and> (\<forall>z\<in>set (collectZIndices s). \<not> (nz < z \<and> z < so_zIndex sel))
        \<and> moveLayerDown s = swapZIndex sel nz s"
      using gap p(2) by blast
  }
qed

lemma moveLayerUp_result:
  assumes d: "distinct (collectZIndices s)" and g: "getSelectedObject s = Some sel"
  shows "(\<forall>z\<in>set (collectZIndices s). z \<le> so_zIndex sel) \<Longrightarrow> moveLayerUp s = s"
    and "(\<exists>z\<in>set (collectZIndices s). so_zIndex sel < z) \<Longrightarrow>
      \<exists>nz\<in>set (collectZIndices s). so_zIndex sel < nz
        \<and> (\<forall>z\<in>set (collectZIndices s). \<not> (so_zIndex sel < z \<and> z < nz))
        \<and> moveLayerUp s = swapZIndex sel nz s"
proof -
  define zs where "zs = getAllZIndices s"
  define ci where "ci = indexOf zs (so_zIndex sel)"
  note p = getAllZIndices_props [OF d, folded zs_def]
  have "so_zIndex sel \<in> set zs" using selected_zIndex_mem [OF g] p(2) by simp
  from indexOf_mem [OF this]
  have c: "0 \<le> ci" "nat ci < length zs" "zs ! nat ci = so_zIndex sel"
    by (simp_all add: ci_def)
  have u: "moveLayerUp s =
      (if ci \<ge> int (length zs) - 1 then s else swapZIndex sel (zs ! nat (ci + 1)) s)"
    by (simp add: moveLayerUp_def g Let_def zs_def ci_def)
  {
    assume "\<forall>z\<in>set (collectZIndices s). z \<le> so_zIndex sel"
    then have "\<forall>z\<in>set zs. z \<le> zs ! nat ci" using p(2) c(3) by simp
    from strict_sorted_greatest [OF p(1) c(2) this] have "ci \<ge> int (length zs) - 1"
      using c(1) by linarith
    then show "moveLayerUp s = s" by (simp add: u)
  }
  {
    assume "\<exists>z\<in>set (collectZIndices s). so_zIndex sel < z"
    then obtain z where z: "z \<in> set zs" "zs ! nat ci < z" using p(2) c(3) by auto
    then obtain k where k: "k < length zs" "zs ! k = z" by (auto simp add: in_set_conv_nth)
    have "Suc (nat ci) \<noteq> length zs"
    proof
      assume "Suc (nat ci) = length zs"
      then have "k \<le> nat ci" using k(1) by simp
      from strict_sorted_le [OF p(1) this c(2)] show False using z k by simp
    qed
    then have jl: "Suc (nat ci) < length zs" using c(2) by simp
    then have lt: "\<not> ci \<ge> int (length zs) - 1" using c(1) by linarith
    have n: "nat (ci + 1) = Suc (nat ci)" using c(1) by simp
    note gap = strict_sorted_gap [OF p(1) jl, unfolded c(3)]
    have "zs ! Suc (nat ci) \<in> set zs" using jl by simp
    then have "zs ! Suc (nat ci) \<in> set (collectZIndices s)" using p(2) by simp
    moreover have "moveLayerUp s = swapZIndex sel (zs ! Suc (nat ci)) s"
      using lt by (simp add: u n)
    ultimately show "\<exists>nz\<in>set (collectZIndices s). so_zIndex sel < nz
        \<and> (\<forall>z\<in>set (collectZIndices s). \<not> (so_zIndex sel < z \<and> z < nz))
        \<and> moveLayerUp s = swapZIndex sel nz s"
      using gap p(2) by blast
  }
qed


text \<open>
  Claim C5. Let the z-indices of all entities be pairwise distinct and let
  \<^verbatim>\<open>getSelectedObject\<close> find the selected entity \<open>sel\<close> (with exactly one entity selected,
  that is the entity). Then \<^verbatim>\<open>moveLayerDown\<close> and \<^verbatim>\<open>moveLayerUp\<close> leave the multiset of
  z-indices unchanged. When the selected entity has the lowest z-index, \<^verbatim>\<open>moveLayerDown\<close>
  returns the state unchanged; when it has the highest, \<^verbatim>\<open>moveLayerUp\<close> does. Otherwise
  there is a neighbour z-index \<open>nz\<close> in the document, below (above) the selected one with no
  z-index of the document in between, such that the resulting document is the old one with
  the two values exchanged: every entity at the selected z-index now has \<open>nz\<close>, every entity
  at \<open>nz\<close> now has the selected z-index, all other entities and the counters are as before.
  Exactly two positions of the z-index list changed.
\<close>

theorem layer_move_swaps_two:
  assumes "distinct (collectZIndices s)" and "getSelectedObject s = Some sel"
  shows "mset (collectZIndices (moveLayerDown s)) = mset (collectZIndices s)
   \<and> mset (collectZIndices (moveLayerUp s)) = mset (collectZIndices s)
   \<and> ((\<forall>z\<in>set (collectZIndices s). so_zIndex sel \<le> z) \<longrightarrow> moveLayerDown s = s)
   \<and> ((\<forall>z\<in>set (collectZIndices s). z \<le> so_zIndex sel) \<longrightarrow> moveLayerUp s = s)
   \<and> ((\<exists>z\<in>set (collectZIndices s). z < so_zIndex sel) \<longrightarrow>
        (\<exists>nz\<in>set (collectZIndices s). nz < so_zIndex sel
          \<and> (\<forall>z\<in>set (collectZIndices s). \<not> (nz < z \<and> z < so_zIndex sel))
          \<and> document (moveLayerDown s) = zSwappedDocument (so_zIndex sel) nz s
          \<and> length (filter (\<lambda>(u, v). u \<noteq> v)
                (zip (collectZIndices s) (collectZIndices (moveLayerDown s)))) = 2))
   \<and> ((\<exists>z\<in>set (collectZIndices s). so_zIndex sel < z) \<longrightarrow>
        (\<exists>nz\<in>set (collectZIndices s). so_zIndex sel < nz
          \<and> (\<forall>z\<in>set (collectZIndices s). \<not> (so_zIndex sel < z \<and> z < nz))
          \<and> document (moveLayerUp s) = zSwappedDocument (so_zIndex sel) nz s
          \<and> length (filter (\<lambda>(u, v). u \<noteq> v)
                (zip (collectZIndices s) (collectZIndices (moveLayerUp s)))) = 2))"
proof -
  note d = assms(1) and g = assms(2)
  let ?sz = "so_zIndex sel"
  let ?zl = "collectZIndices s"
  note m = selected_zIndex_mem [OF g]
  have swap: "document (swapZIndex sel nz s) = zSwappedDocument ?sz nz s
      \<and> length (filter (\<lambda>(u, v). u \<noteq> v) (zip ?zl (collectZIndices (swapZIndex sel nz s)))) = 2
      \<and> mset (collectZIndices (swapZIndex sel nz s)) = mset ?zl"
    if "nz \<in> set ?zl" "?sz \<noteq> nz" for nz
  proof -
    have doc: "document (swapZIndex sel nz s) = zSwappedDocument ?sz nz s"
      using document_swapZIndex [OF d g that(2)] .
    note c = collectZIndices_swapped [OF doc]
    show ?thesis
      unfolding c using doc changed_by_swapZ [OF d m that] mset_map_swapZ [OF d m that(1)]
      by simp
  qed
  have down_low: "moveLayerDown s = s" if "\<forall>z\<in>set ?zl. ?sz \<le> z"
    using moveLayerDown_result(1) [OF d g that] .
  have up_high: "moveLayerUp s = s" if "\<forall>z\<in>set ?zl. z \<le> ?sz"
    using moveLayerUp_result(1) [OF d g that] .
  have down: "\<exists>nz\<in>set ?zl. nz < ?sz \<and> (\<forall>z\<in>set ?zl. \<not> (nz < z \<and> z < ?sz))
          \<and> document (moveLayerDown s) = zSwappedDocument ?sz nz s
          \<and> length (filter (\<lambda>(u, v). u \<noteq> v) (zip ?zl (collectZIndices (moveLayerDown s)))) = 2
          \<and> mset (collectZIndices (moveLayerDown s)) = mset ?zl"
    if "\<exists>z\<in>set ?zl. z < ?sz"
  proof -
    from moveLayerDown_result(2) [OF d g that]
    obtain nz where nz: "nz \<in> set ?zl" "nz < ?sz" "\<forall>z\<in>set ?zl. \<not> (nz < z \<and> z < ?sz)"
        "moveLayerDown s = swapZIndex sel nz s"
      by blast
    from nz(2) have "?sz \<noteq> nz" by simp
    from swap [OF nz(1) this] nz show ?thesis by auto
  qed
  have up: "\<exists>nz\<in>set ?zl. ?sz < nz \<and> (\<forall>z\<in>set ?zl. \<not> (?sz < z \<and> z < nz))
          \<and> document (moveLayerUp s) = zSwappedDocument ?sz nz s
          \<and> length (filter (\<lambda>(u, v). u \<noteq> v) (zip ?zl (collectZIndices (moveLayerUp s)))) = 2
          \<and> mset (collectZIndices (moveLayerUp s)) = mset ?zl"
    if "\<exists>z\<in>set ?zl. ?sz < z"
  proof -
    from moveLayerUp_result(2) [OF d g that]
    obtain nz where nz: "nz \<in> set ?zl" "?sz < nz" "\<forall>z\<in>set ?zl. \<not> (?sz < z \<and> z < nz)"
        "moveLayerUp s = swapZIndex sel nz s"
      by blast
    from nz(2) have "?sz \<noteq> nz" by simp
    from swap [OF nz(1) this] nz show ?thesis by auto
  qed
  have md: "mset (collectZIndices (moveLayerDown s)) = mset ?zl"
  proof (cases "\<exists>z\<in>set ?zl. z < ?sz")
    case True
    from down [OF True] show ?thesis by blast
  next
    case False
    then have "\<forall>z\<in>set ?zl. ?sz \<le> z" by auto
    from down_low [OF this] show ?thesis by simp
  qed
  have mu: "mset (collectZIndices (moveLayerUp s)) = mset ?zl"
  proof (cases "\<exists>z\<in>set ?zl. ?sz < z")
    case True
    from up [OF True] show ?thesis by blast
  next
    case False
    then have "\<forall>z\<in>set ?zl. z \<le> ?sz" by auto
    from up_high [OF this] show ?thesis by simp
  qed
  show ?thesis
    using md mu down_low up_high down up by blast
qed

theorem layer_move_swaps_two_witness:
  "distinct (collectZIndices layersApp)
   \<and> getSelectedObject layersApp = Some rectSelected
   \<and> getSelectedObject bottomSelectedApp = Some textSelected
   \<and> collectZIndices layersApp = [1, 2, 5]
   \<and> collectZIndices (moveLayerDown layersApp) = [2, 1, 5]
   \<and> collectZIndices (moveLayerUp layersApp) = [1, 5, 2]
   \<and> mset (collectZIndices (moveLayerDown layersApp)) = mset (collectZIndices layersApp)
   \<and> mset (collectZIndices (moveLayerUp layersApp)) = mset (collectZIndices layersApp)
   \<and> moveLayerDown bottomSelectedApp = bottomSelectedApp"
proof -
  have c: "collectZIndices layersApp = [1, 2, 5]" "collectZIndices bottomSelectedApp = [1, 2, 5]"
    by (simp_all add: collectZIndices_def layersApp_def bottomSelectedApp_def initialApp_def)
  have d: "distinct (collectZIndices layersApp)" "distinct (collectZIndices bottomSelectedApp)"
    by (simp_all add: c)
  have g: "getSelectedObject layersApp = Some rectSelected"
    by (simp add: getSelectedObject_def layersApp_def initialApp_def rectSelected_def)
  have gb: "getSelectedObject bottomSelectedApp = Some textSelected"
    by (simp add: getSelectedObject_def bottomSelectedApp_def layersApp_def initialApp_def
        textSelected_def)
  have a: "getAllZIndices layersApp = [1, 2, 5]"
    by (simp add: getAllZIndices_def c)
  have dn: "collectZIndices (moveLayerDown layersApp) = [2, 1, 5]"
    by (simp add: moveLayerDown_def g a rectSelected_def Let_def)
      (simp add: swapZIndex_def saveSnapshot_def Let_def collectZIndices_def layersApp_def
        initialApp_def)
  have up: "collectZIndices (moveLayerUp layersApp) = [1, 5, 2]"
    by (simp add: moveLayerUp_def g a rectSelected_def Let_def)
      (simp add: swapZIndex_def saveSnapshot_def Let_def collectZIndices_def layersApp_def
        initialApp_def)
  have low: "\<forall>z\<in>set (collectZIndices bottomSelectedApp). so_zIndex textSelected \<le> z"
    by (simp add: c textSelected_def)
  from layer_move_swaps_two [OF d(1) g]
  have m: "mset (collectZIndices (moveLayerDown layersApp)) = mset (collectZIndices layersApp)"
    "mset (collectZIndices (moveLayerUp layersApp)) = mset (collectZIndices layersApp)"
    by blast+
  from layer_move_swaps_two [OF d(2) gb] low
  have "moveLayerDown bottomSelectedApp = bottomSelectedApp" by blast
  with d g gb c dn up m show ?thesis by blast
qed

end
